theory Spec2Isabelle
  imports Main "HOL-Library.Word"
begin

unbundle bit_operations_syntax

section \<open>Patch application: a model of src/apply.c\<close>

text \<open>
  Conventions of the model.
  \<^item> A byte is a \<open>char\<close>, a byte sequence a \<open>string\<close>.
  \<^item> A C pointer to bytes is the list of the bytes that can be read from it onwards; a
    pair (pointer, length) denotes the first \<open>length\<close> bytes of that list.
  \<^item> A \<open>size_t\<close> is a \<open>nat\<close>: the sizes here are lengths and indices of arrays in
    memory, and no sum of two of them reaches \<open>2 ^ 64\<close>. The conversions that change a
    value (\<open>int\<close> to \<open>size_t\<close>, \<open>size_t\<close> to \<open>unsigned int\<close>) are written out where the
    code makes them.
  \<^item> The \<open>int error\<close> of the C code is an \<open>error option\<close>: \<open>None\<close> is 0, and every
    failure is a negative code, as everywhere in this library.
  \<^item> A read outside the object a pointer points into, and a read through a null pointer,
    have no defined result: a function that can make one returns an \<open>option\<close>, and
    \<open>None\<close> is that outcome.
  \<^item> Allocation succeeds.
\<close>

subsection \<open>Errors\<close>

datatype error =
    apply_err string \<comment> \<open>the macro \<open>apply_err\<close>: it sets the message and gives \<open>GIT_EAPPLYFAIL\<close>\<close>
  | GIT_ERROR_CODE int \<comment> \<open>a negative code, with the message of the function that first returned it\<close>

subsection \<open>Data\<close>

text \<open>
  \<open>git_diff_line\<close>: the fields that apply.c reads or writes. \<open>content\<close> is a pointer, so it
  holds the bytes readable from it; the line's own bytes are the first \<open>content_len\<close>.
\<close>

record git_diff_line =
  origin :: char
  content :: string
  content_len :: nat
  content_offset :: nat

text \<open>
  Modelled from the spec: the constants and enumerations of the public headers, which are
  not among the sources. The spec names the three origins of a line, the statuses of a
  delta, the two types of a binary payload and the \<open>binary\<close> bit of the flags. The values
  are those of the library; what matters below is only that the origins differ and that
  the bit is not 0. A payload of neither type has the type \<open>GIT_DIFF_BINARY_NONE\<close>.
\<close>

definition GIT_DIFF_LINE_CONTEXT :: char where
  "GIT_DIFF_LINE_CONTEXT = CHR '' ''"

definition GIT_DIFF_LINE_ADDITION :: char where
  "GIT_DIFF_LINE_ADDITION = CHR ''+''"

definition GIT_DIFF_LINE_DELETION :: char where
  "GIT_DIFF_LINE_DELETION = CHR ''-''"

definition line_bytes :: "git_diff_line \<Rightarrow> string" where
  "line_bytes l = take (content_len l) (content l)"

text \<open>
  \<open>patch_image\<close>: its \<open>lines\<close> vector, an array of pointers to lines, some of which may be
  null. The pool of the C struct only owns the storage of the lines.
\<close>

type_synonym patch_image = "git_diff_line option list"

text \<open>
  \<open>git_diff_hunk\<close> (of which apply.c reads \<open>new_start\<close>, a C \<open>int\<close>) and \<open>git_patch_hunk\<close>.
\<close>

record git_diff_hunk =
  new_start :: "32 word"

record git_patch_hunk =
  hunk :: git_diff_hunk
  line_start :: nat
  line_count :: nat

datatype git_diff_binary_t =
  GIT_DIFF_BINARY_NONE | GIT_DIFF_BINARY_LITERAL | GIT_DIFF_BINARY_DELTA

record git_diff_binary_file =
  type :: git_diff_binary_t
  data :: string
  datalen :: nat
  inflatedlen :: nat

record git_diff_binary =
  contains_data :: bool
  old_file :: git_diff_binary_file
  new_file :: git_diff_binary_file

datatype git_delta_t =
    GIT_DELTA_UNMODIFIED | GIT_DELTA_ADDED | GIT_DELTA_DELETED | GIT_DELTA_MODIFIED
  | GIT_DELTA_RENAMED | GIT_DELTA_COPIED | GIT_DELTA_IGNORED | GIT_DELTA_UNTRACKED
  | GIT_DELTA_TYPECHANGE | GIT_DELTA_UNREADABLE | GIT_DELTA_CONFLICTED

record git_diff_file =
  path :: string
  mode :: nat

record git_diff_delta =
  status :: git_delta_t
  flags :: "32 word"
  old_file :: git_diff_file
  new_file :: git_diff_file

definition GIT_DIFF_FLAG_BINARY :: "32 word" where
  "GIT_DIFF_FLAG_BINARY = 1"

text \<open>
  Modelled from the spec: the constant \<open>GIT_FILEMODE_BLOB\<close>, declared in a header that is
  not among the sources; the spec calls it the default regular-file mode. Its value,
  octal 100644, plays no part in what follows.
\<close>

definition GIT_FILEMODE_BLOB :: nat where
  "GIT_FILEMODE_BLOB = 33188"

record git_patch =
  delta :: git_diff_delta
  binary :: git_diff_binary
  hunks :: "git_patch_hunk list"
  lines :: "git_diff_line list"

subsection \<open>Vectors and arrays\<close>

text \<open>
  Modelled from the spec: the vector operations of vector.c and the array macro of
  array.h, which are not among the sources. The spec gives a line image random-access
  read, the removal of a contiguous range, and the insertion of a contiguous range of null
  placeholders that are assigned afterwards; a read out of range gives no line
  (\<open>git_vector_get\<close> and \<open>git_array_get\<close> return \<open>NULL\<close>).
\<close>

definition git_vector_get :: "'a option list \<Rightarrow> nat \<Rightarrow> 'a option" where
  "git_vector_get v position = (if position < length v then v ! position else None)"

definition git_vector_insert :: "'a option list \<Rightarrow> 'a option \<Rightarrow> 'a option list" where
  "git_vector_insert v element = v @ [element]"

definition git_vector_insert_null :: "'a option list \<Rightarrow> nat \<Rightarrow> nat \<Rightarrow> 'a option list" where
  "git_vector_insert_null v idx insert_len = take idx v @ replicate insert_len None @ drop idx v"

definition git_vector_remove_range :: "'a option list \<Rightarrow> nat \<Rightarrow> nat \<Rightarrow> 'a option list" where
  "git_vector_remove_range v idx remove_len = take idx v @ drop (idx + remove_len) v"

definition git_array_get :: "'a list \<Rightarrow> nat \<Rightarrow> 'a option" where
  "git_array_get a i = (if i < length a then Some (a ! i) else None)"

subsection \<open>Bytes and buffers\<close>

definition GIT_BUF_INIT :: string where
  "GIT_BUF_INIT = []"

definition git_buf_put :: "string \<Rightarrow> string \<Rightarrow> nat \<Rightarrow> string" where
  "git_buf_put out_buf ptr len = out_buf @ take len ptr"

text \<open>
  \<open>memchr(mem + s, c, n)\<close>: looks at \<open>n\<close> bytes from index \<open>s\<close> on, one after the other, and
  stops at the first \<open>c\<close>. \<open>Some (Some i)\<close> is a pointer to index \<open>i\<close>, \<open>Some None\<close> is
  \<open>NULL\<close>, and \<open>None\<close> is a read past the end of the object.
\<close>

fun memchr :: "string \<Rightarrow> nat \<Rightarrow> char \<Rightarrow> nat \<Rightarrow> nat option option" where
  "memchr mem s c 0 = Some None"
| "memchr mem s c (Suc n) =
     (if s < length mem
      then (if mem ! s = c then Some (Some s) else memchr mem (Suc s) c n)
      else None)"

text \<open>
  \<open>memcmp(s1, s2, n)\<close>: 0 when the first \<open>n\<close> bytes agree. The callers here only test the
  result against 0, so one nonzero value stands for every difference.
\<close>

definition memcmp :: "string \<Rightarrow> string \<Rightarrow> nat \<Rightarrow> int" where
  "memcmp s1 s2 n = (if take n s1 = take n s2 then 0 else 1)"

text \<open>The conversions \<open>%d\<close> and \<open>%zu\<close> of the error messages.\<close>

fun fmt_zu :: "nat \<Rightarrow> string" where
  "fmt_zu n =
     (if n < 10 then [char_of (48 + n)] else fmt_zu (n div 10) @ [char_of (48 + n mod 10)])"

declare fmt_zu.simps [simp del]

definition fmt_d :: "int \<Rightarrow> string" where
  "fmt_d i = (if i < 0 then CHR ''-'' # fmt_zu (nat (- i)) else fmt_zu (nat i))"

text \<open>The conversion of a C \<open>int\<close> to \<open>size_t\<close> (64 bits) and of a \<open>size_t\<close> to \<open>unsigned int\<close>.\<close>

definition size_t_of_int :: "int \<Rightarrow> nat" where
  "size_t_of_int i = nat (i mod 2 ^ 64)"

definition uint_of_size_t :: "nat \<Rightarrow> nat" where
  "uint_of_size_t n = n mod 2 ^ 32"

subsection \<open>The line image\<close>

definition patch_line_init :: "string \<Rightarrow> nat \<Rightarrow> nat \<Rightarrow> git_diff_line" where
  "patch_line_init inp in_len in_offset =
     \<lparr>origin = CHR 0x00, content = inp, content_len = in_len, content_offset = in_offset\<rparr>"

text \<open>
  The loop of \<open>patch_image_init_fromstr\<close>. \<open>mem\<close> is what can be read from the pointer
  \<open>in\<close>; \<open>start\<close> and \<open>endp\<close> are the offsets of the C pointers \<open>start\<close> and \<open>end\<close> from \<open>in\<close>.
  The search is \<open>memchr(start, '\n', in_len)\<close>: \<open>in_len\<close> bytes from \<open>start\<close>, not the bytes
  that remain.
\<close>

function patch_image_init_loop :: "string \<Rightarrow> nat \<Rightarrow> nat \<Rightarrow> patch_image \<Rightarrow> patch_image option" where
  "patch_image_init_loop mem in_len start ls =
     (if start < in_len then
        (case memchr mem start CHR 0x0A in_len of
           None \<Rightarrow> None
         | Some None \<Rightarrow>
             patch_image_init_loop mem in_len in_len
               (ls @ [Some (patch_line_init (drop start mem) (in_len - start) start)])
         | Some (Some e) \<Rightarrow>
             (if e < in_len
              then patch_image_init_loop mem in_len (e + 1)
                     (ls @ [Some (patch_line_init (drop start mem) (e + 1 - start) start)])
              else patch_image_init_loop mem in_len e
                     (ls @ [Some (patch_line_init (drop start mem) (e - start) start)])))
      else Some ls)"
  by pat_completeness auto
termination
proof -
  have found_ge: "s \<le> e" if "memchr mem s c n = Some (Some e)" for mem s c n e
    using that
  proof (induction n arbitrary: s)
    case 0
    then show ?case by simp
  next
    case (Suc n)
    then show ?case by (fastforce split: if_splits)
  qed
  show ?thesis
  proof (relation "measure (\<lambda>(mem, in_len, start, ls). in_len - start)")
    show "wf (measure (\<lambda>(mem, in_len, start, ls). in_len - start))"
      by simp
  qed (auto dest: found_ge)
qed

declare patch_image_init_loop.simps [simp del]

definition patch_image_init_fromstr :: "string \<Rightarrow> nat \<Rightarrow> patch_image option" where
  "patch_image_init_fromstr mem in_len = patch_image_init_loop mem in_len 0 []"

text \<open>
  The last loop of \<open>apply_hunks\<close>: every line of the image is appended to the output
  buffer.
\<close>

fun put_lines :: "string \<Rightarrow> patch_image \<Rightarrow> string option" where
  "put_lines out_buf [] = Some out_buf"
| "put_lines out_buf (None # ls) = None"
| "put_lines out_buf (Some line # ls) =
     put_lines (git_buf_put out_buf (content line) (content_len line)) ls"

subsection \<open>Matching and applying a hunk\<close>

text \<open>The loop of \<open>match_hunk\<close>; \<open>Some False\<close> is its \<open>break\<close>.\<close>

function match_hunk_loop :: "patch_image \<Rightarrow> patch_image \<Rightarrow> nat \<Rightarrow> nat \<Rightarrow> bool option" where
  "match_hunk_loop img preimage linenum i =
     (if i < length preimage then
        (case git_vector_get preimage i of
           None \<Rightarrow> None
         | Some preimage_line \<Rightarrow>
             (case git_vector_get img (linenum + i) of
                None \<Rightarrow> None
              | Some image_line \<Rightarrow>
                  (if content_len preimage_line \<noteq> content_len image_line \<or>
                      memcmp (content preimage_line) (content image_line)
                        (content_len image_line) \<noteq> 0
                   then Some False
                   else match_hunk_loop img preimage linenum (Suc i))))
      else Some True)"
  by pat_completeness auto
termination
  by (relation "measure (\<lambda>(img, preimage, linenum, i). length preimage - i)") auto

declare match_hunk_loop.simps [simp del]

definition match_hunk :: "patch_image \<Rightarrow> patch_image \<Rightarrow> nat \<Rightarrow> bool option" where
  "match_hunk img preimage linenum =
     (if length preimage + linenum > length img then Some False
      else match_hunk_loop img preimage linenum 0)"

text \<open>\<open>find_hunk_linenum\<close> returns the line number it stores in \<open>*out\<close> and the match.\<close>

definition find_hunk_linenum :: "patch_image \<Rightarrow> patch_image \<Rightarrow> nat \<Rightarrow> (nat \<times> bool) option" where
  "find_hunk_linenum img preimage linenum =
     (let max_line = length img;
          linenum' = (if linenum > max_line then max_line else linenum)
      in map_option (\<lambda>m. (linenum', m)) (match_hunk img preimage linenum'))"

text \<open>The loop of \<open>update_hunk\<close> that stores the postimage lines into the image.\<close>

function update_hunk_loop :: "patch_image \<Rightarrow> nat \<Rightarrow> patch_image \<Rightarrow> nat \<Rightarrow> patch_image" where
  "update_hunk_loop img linenum postimage i =
     (if i < length postimage
      then update_hunk_loop (img[linenum + i := git_vector_get postimage i])
             linenum postimage (Suc i)
      else img)"
  by pat_completeness auto
termination
  by (relation "measure (\<lambda>(img, linenum, postimage, i). length postimage - i)") auto

declare update_hunk_loop.simps [simp del]

definition update_hunk :: "patch_image \<Rightarrow> nat \<Rightarrow> patch_image \<Rightarrow> patch_image \<Rightarrow> patch_image" where
  "update_hunk img linenum preimage postimage =
     (let postlen = length postimage;
          prelen = length preimage;
          img' =
            (if postlen > prelen then git_vector_insert_null img linenum (postlen - prelen)
             else if prelen > postlen then git_vector_remove_range img linenum (prelen - postlen)
             else img)
      in update_hunk_loop img' linenum postimage 0)"

text \<open>
  The first loop of \<open>apply_hunk\<close>: the lines of the hunk go to the preimage, the
  postimage or both, by their origin.
\<close>

function apply_hunk_lines ::
  "git_patch \<Rightarrow> git_patch_hunk \<Rightarrow> nat \<Rightarrow> patch_image \<Rightarrow> patch_image
     \<Rightarrow> error + (patch_image \<times> patch_image)" where
  "apply_hunk_lines patch h i preimage postimage =
     (if i < line_count h then
        (let linenum = line_start h + i in
         case git_array_get (lines patch) linenum of
           None \<Rightarrow> Inl (apply_err (''preimage does not contain line '' @ fmt_zu linenum))
         | Some line \<Rightarrow>
             (let preimage' =
                    (if origin line = GIT_DIFF_LINE_CONTEXT \<or> origin line = GIT_DIFF_LINE_DELETION
                     then git_vector_insert preimage (Some line) else preimage);
                  postimage' =
                    (if origin line = GIT_DIFF_LINE_CONTEXT \<or> origin line = GIT_DIFF_LINE_ADDITION
                     then git_vector_insert postimage (Some line) else postimage)
              in apply_hunk_lines patch h (Suc i) preimage' postimage'))
      else Inr (preimage, postimage))"
  by pat_completeness auto
termination
  by (relation "measure (\<lambda>(patch, h, i, preimage, postimage). line_count h - i)") auto

declare apply_hunk_lines.simps [simp del]

text \<open>
  The anchor: \<open>line_num = hunk->hunk.new_start ? hunk->hunk.new_start - 1 : 0\<close>, an \<open>int\<close>
  stored into a \<open>size_t\<close>. A negative \<open>new_start\<close> gives a line number near \<open>2 ^ 64\<close>, which
  \<open>find_hunk_linenum\<close> then lowers to the length of the image. The subtraction is taken in
  the integers (for the least \<open>int\<close> C leaves it undefined).
\<close>

definition hunk_line_num :: "git_patch_hunk \<Rightarrow> nat" where
  "hunk_line_num h =
     (if new_start (hunk h) \<noteq> 0 then size_t_of_int (sint (new_start (hunk h)) - 1) else 0)"

definition apply_hunk ::
  "patch_image \<Rightarrow> git_patch \<Rightarrow> git_patch_hunk \<Rightarrow> (error option \<times> patch_image) option" where
  "apply_hunk img patch h =
     (case apply_hunk_lines patch h 0 [] [] of
        Inl e \<Rightarrow> Some (Some e, img)
      | Inr (preimage, postimage) \<Rightarrow>
          (case find_hunk_linenum img preimage (hunk_line_num h) of
             None \<Rightarrow> None
           | Some (line_num, matched) \<Rightarrow>
               (if \<not> matched
                then Some (Some (apply_err
                       (''hunk at line '' @ fmt_d (sint (new_start (hunk h))) @ '' did not apply'')),
                     img)
                else Some (None, update_hunk img (uint_of_size_t line_num) preimage postimage))))"

subsection \<open>Applying the hunks of a patch\<close>

fun apply_hunks_loop ::
  "patch_image \<Rightarrow> git_patch \<Rightarrow> git_patch_hunk list \<Rightarrow> (error option \<times> patch_image) option" where
  "apply_hunks_loop img patch [] = Some (None, img)"
| "apply_hunks_loop img patch (h # hs) =
     (case apply_hunk img patch h of
        None \<Rightarrow> None
      | Some (Some e, img') \<Rightarrow> Some (Some e, img')
      | Some (None, img') \<Rightarrow> apply_hunks_loop img' patch hs)"

text \<open>
  \<open>apply_hunks\<close>: \<open>source\<close> holds the \<open>source_len\<close> bytes of the buffer, \<open>beyond\<close> the bytes
  that follow them in the same object. On an error the output buffer is not written.
\<close>

definition apply_hunks ::
  "string \<Rightarrow> string \<Rightarrow> string \<Rightarrow> git_patch \<Rightarrow> (error option \<times> string) option" where
  "apply_hunks out_buf source beyond patch =
     (case patch_image_init_fromstr (source @ beyond) (length source) of
        None \<Rightarrow> None
      | Some img \<Rightarrow>
          (case apply_hunks_loop img patch (hunks patch) of
             None \<Rightarrow> None
           | Some (Some e, img') \<Rightarrow> Some (Some e, out_buf)
           | Some (None, img') \<Rightarrow> map_option (\<lambda>b. (None, b)) (put_lines out_buf img')))"

subsection \<open>Binary patches\<close>

text \<open>
  zstream.c and delta.c are not among the sources, so \<open>git_zstream_inflatebuf\<close> and
  \<open>git_delta_apply\<close> are parameters, \<open>inflatebuf\<close> and \<open>delta_apply\<close>. Each gives the code
  that it returns (\<open>None\<close> for 0, \<open>Some c\<close> for the negative code \<open>c\<close>) and the bytes that it
  leaves in its output. \<open>out_buf\<close> is the content of the buffer \<open>out\<close> at the call; the
  buffer that \<open>git_buf_dispose\<close> leaves is empty.
\<close>

definition apply_binary_delta ::
  "(string \<Rightarrow> int option \<times> string) \<Rightarrow> (string \<Rightarrow> string \<Rightarrow> int option \<times> string)
     \<Rightarrow> string \<Rightarrow> string \<Rightarrow> git_diff_binary_file \<Rightarrow> error option \<times> string" where
  "apply_binary_delta inflatebuf delta_apply out_buf source binary_file =
     (if datalen binary_file = 0 then (None, git_buf_put out_buf source (length source))
      else
        (case inflatebuf (take (datalen binary_file) (data binary_file)) of
           (Some c, inflated) \<Rightarrow> (Some (GIT_ERROR_CODE c), out_buf)
         | (None, inflated) \<Rightarrow>
             (if length inflated \<noteq> inflatedlen binary_file
              then (Some (apply_err ''inflated delta does not match expected length''), [])
              else
                (case type binary_file of
                   GIT_DIFF_BINARY_DELTA \<Rightarrow>
                     (case delta_apply source inflated of
                        (rc, delta_out) \<Rightarrow> (map_option GIT_ERROR_CODE rc, delta_out))
                 | GIT_DIFF_BINARY_LITERAL \<Rightarrow> (None, inflated)
                 | GIT_DIFF_BINARY_NONE \<Rightarrow>
                     (Some (apply_err ''unknown binary delta type''), out_buf)))))"

definition apply_binary ::
  "(string \<Rightarrow> int option \<times> string) \<Rightarrow> (string \<Rightarrow> string \<Rightarrow> int option \<times> string)
     \<Rightarrow> string \<Rightarrow> string \<Rightarrow> git_patch \<Rightarrow> error option \<times> string" where
  "apply_binary inflatebuf delta_apply out_buf source patch =
     (if \<not> contains_data (binary patch)
      then (Some (apply_err ''patch does not contain binary data''), [])
      else if datalen (git_diff_binary.old_file (binary patch)) = 0 \<and>
              datalen (git_diff_binary.new_file (binary patch)) = 0
      then (None, out_buf)
      else
        (case apply_binary_delta inflatebuf delta_apply out_buf source
                (git_diff_binary.new_file (binary patch)) of
           (Some e, out1) \<Rightarrow> (Some e, [])
         | (None, out1) \<Rightarrow>
             (case apply_binary_delta inflatebuf delta_apply GIT_BUF_INIT out1
                     (git_diff_binary.old_file (binary patch)) of
                (Some e, reverse) \<Rightarrow> (Some e, [])
              | (None, reverse) \<Rightarrow>
                  (if length source \<noteq> length reverse \<or>
                      memcmp source reverse (length source) \<noteq> 0
                   then (Some (apply_err ''binary patch did not apply cleanly''), [])
                   else (None, out1)))))"

subsection \<open>Applying the patch of one file\<close>

text \<open>
  What \<open>git_apply__patch\<close> leaves to its caller: the code it returns and the three
  outputs. \<open>filename_out\<close> is \<open>None\<close> for a null pointer.
\<close>

record apply_result =
  error :: "error option"
  contents_out :: string
  filename_out :: "string option"
  mode_out :: nat

text \<open>
  \<open>contents_out0\<close> is the content of the caller's buffer at the call (\<open>apply_one\<close> passes
  \<open>GIT_BUF_INIT\<close>); \<open>source\<close> and \<open>beyond\<close> are as in \<open>apply_hunks\<close>. \<open>*filename_out\<close> and
  \<open>*mode_out\<close> are set to null and 0 first and assigned again only before the label \<open>done\<close>.
\<close>

definition git_apply__patch ::
  "(string \<Rightarrow> int option \<times> string) \<Rightarrow> (string \<Rightarrow> string \<Rightarrow> int option \<times> string)
     \<Rightarrow> string \<Rightarrow> string \<Rightarrow> string \<Rightarrow> git_patch \<Rightarrow> apply_result option" where
  "git_apply__patch inflatebuf delta_apply contents_out0 source beyond patch =
     (let newfile = git_diff_delta.new_file (delta patch);
          filename =
            (if status (delta patch) \<noteq> GIT_DELTA_DELETED then Some (path newfile) else None);
          mode' =
            (if status (delta patch) \<noteq> GIT_DELTA_DELETED
             then (if mode newfile \<noteq> 0 then mode newfile else GIT_FILEMODE_BLOB)
             else 0);
          applied =
            (if flags (delta patch) AND GIT_DIFF_FLAG_BINARY \<noteq> 0
             then Some (apply_binary inflatebuf delta_apply contents_out0 source patch)
             else if hunks patch \<noteq> []
             then apply_hunks contents_out0 source beyond patch
             else Some (None, git_buf_put contents_out0 source (length source)))
      in case applied of
           None \<Rightarrow> None
         | Some (Some e, contents) \<Rightarrow>
             Some \<lparr>error = Some e, contents_out = contents, filename_out = None, mode_out = 0\<rparr>
         | Some (None, contents) \<Rightarrow>
             (if status (delta patch) = GIT_DELTA_DELETED \<and> length contents > 0
              then Some \<lparr>error = Some (apply_err ''removal patch leaves file contents''),
                     contents_out = contents, filename_out = None, mode_out = 0\<rparr>
              else Some \<lparr>error = None, contents_out = contents,
                     filename_out = filename, mode_out = mode'\<rparr>))"

subsection \<open>The index and the other collaborators of a batch\<close>

text \<open>
  Modelled from the spec: the index of index.c, which is not among the sources. The spec
  makes it a mutable mapping from a path to a mode and a blob id, with \<open>add\<close> and
  \<open>remove(path)\<close>, and seeds a postimage index from a tree. The code tests what
  \<open>git_index_remove\<close>, \<open>git_index_add\<close> and \<open>git_index_read_tree\<close> return, so the code that
  each returns is a parameter (\<open>None\<close> for 0).
\<close>

type_synonym git_oid = string

type_synonym git_index = "string \<rightharpoonup> nat \<times> git_oid"

definition git_index_new :: git_index where
  "git_index_new = Map.empty"

definition git_index_remove ::
  "(git_index \<Rightarrow> string \<Rightarrow> int option) \<Rightarrow> git_index \<Rightarrow> string \<Rightarrow> int option \<times> git_index" where
  "git_index_remove remove_code index p = (remove_code index p, index(p := None))"

definition git_index_add ::
  "(git_index \<Rightarrow> string \<Rightarrow> int option) \<Rightarrow> git_index \<Rightarrow> string \<Rightarrow> nat \<Rightarrow> git_oid
     \<Rightarrow> int option \<times> git_index" where
  "git_index_add add_code index p m blob_id = (add_code index p, index(p \<mapsto> (m, blob_id)))"

definition git_index_read_tree ::
  "(git_index \<Rightarrow> int option) \<Rightarrow> git_index \<Rightarrow> git_index \<Rightarrow> int option \<times> git_index" where
  "git_index_read_tree read_tree_code index tree = (read_tree_code tree, tree)"

text \<open>
  The functions of other files that a batch calls. A reader gives, for a path, the code
  it returns, the contents it reads and the bytes that follow the contents in the buffer
  it fills. A diff is the list of its deltas; \<open>git_patch_from_diff\<close> makes the patch of
  the delta at an index.
\<close>

type_synonym git_reader = "string \<Rightarrow> int option \<times> string \<times> string"

record collaborators =
  git_zstream_inflatebuf :: "string \<Rightarrow> int option \<times> string"
  git_delta_apply :: "string \<Rightarrow> string \<Rightarrow> int option \<times> string"
  git_patch_from_diff :: "git_diff_delta list \<Rightarrow> nat \<Rightarrow> int option \<times> git_patch"
  git_blob_create_frombuffer :: "string \<Rightarrow> int option \<times> git_oid"
  git_reader_for_tree :: "git_index \<Rightarrow> int option \<times> git_reader"
  git_reader_for_workdir :: "int option \<times> git_reader"
  git_reader_for_index :: "int option \<times> git_reader"
  index_remove_code :: "git_index \<Rightarrow> string \<Rightarrow> int option"
  index_add_code :: "git_index \<Rightarrow> string \<Rightarrow> int option"
  index_read_tree_code :: "git_index \<Rightarrow> int option"

text \<open>
  Modelled from the spec: the two error codes that \<open>apply_one\<close> names, declared in a header
  that is not among the sources. The spec tells them apart as a bare "not found" and an
  apply-specific error; the numbers are those of the library.
\<close>

definition GIT_ENOTFOUND :: int where
  "GIT_ENOTFOUND = - 3"

definition GIT_EAPPLYFAIL :: int where
  "GIT_EAPPLYFAIL = - 35"

subsection \<open>Applying the deltas of a diff\<close>

definition apply_one ::
  "collaborators \<Rightarrow> git_reader \<Rightarrow> git_index \<Rightarrow> git_diff_delta list \<Rightarrow> nat
     \<Rightarrow> (error option \<times> git_index) option" where
  "apply_one env preimage_reader postimage diff i =
     (case git_patch_from_diff env diff i of
        (Some c, patch) \<Rightarrow> Some (Some (GIT_ERROR_CODE c), postimage)
      | (None, patch) \<Rightarrow>
          (let d = diff ! i in
           if status d = GIT_DELTA_DELETED then Some (None, postimage)
           else
             (case (if status d \<noteq> GIT_DELTA_ADDED
                    then preimage_reader (path (git_diff_delta.old_file d))
                    else (None, GIT_BUF_INIT, [CHR 0x00])) of
                (Some c, pre_contents, slack) \<Rightarrow>
                  Some (Some (GIT_ERROR_CODE (if c = GIT_ENOTFOUND then GIT_EAPPLYFAIL else c)),
                        postimage)
              | (None, pre_contents, slack) \<Rightarrow>
                  (case git_apply__patch (git_zstream_inflatebuf env) (git_delta_apply env) GIT_BUF_INIT
                          pre_contents slack patch of
                     None \<Rightarrow> None
                   | Some r \<Rightarrow>
                       (case error r of
                          Some e \<Rightarrow> Some (Some e, postimage)
                        | None \<Rightarrow>
                            (case git_blob_create_frombuffer env (contents_out r) of
                               (Some c, blob_id) \<Rightarrow> Some (Some (GIT_ERROR_CODE c), postimage)
                             | (None, blob_id) \<Rightarrow>
                                 (case filename_out r of
                                    None \<Rightarrow> None
                                  | Some filename \<Rightarrow>
                                      (case git_index_add (index_add_code env) postimage
                                              filename (mode_out r) blob_id of
                                         (rc, postimage') \<Rightarrow>
                                           Some (map_option GIT_ERROR_CODE rc, postimage')))))))))"

text \<open>The first loop of \<open>git_apply_tree\<close>: the old paths leave the postimage index.\<close>

function remove_old_paths ::
  "collaborators \<Rightarrow> git_index \<Rightarrow> git_diff_delta list \<Rightarrow> nat \<Rightarrow> error option \<times> git_index" where
  "remove_old_paths env postimage diff i =
     (if i < length diff then
        (case git_index_remove (index_remove_code env) postimage
                (path (git_diff_delta.old_file (diff ! i))) of
           (Some c, postimage') \<Rightarrow> (Some (GIT_ERROR_CODE c), postimage')
         | (None, postimage') \<Rightarrow> remove_old_paths env postimage' diff (Suc i))
      else (None, postimage))"
  by pat_completeness auto
termination
  by (relation "measure (\<lambda>(env, postimage, diff, i). length diff - i)") auto

declare remove_old_paths.simps [simp del]

text \<open>The loop over \<open>apply_one\<close>, the second of \<open>git_apply_tree\<close> and the only one of \<open>git_apply\<close>.\<close>

function apply_deltas ::
  "collaborators \<Rightarrow> git_reader \<Rightarrow> git_index \<Rightarrow> git_diff_delta list \<Rightarrow> nat
     \<Rightarrow> (error option \<times> git_index) option" where
  "apply_deltas env pre_reader postimage diff i =
     (if i < length diff then
        (case apply_one env pre_reader postimage diff i of
           None \<Rightarrow> None
         | Some (Some e, postimage') \<Rightarrow> Some (Some e, postimage')
         | Some (None, postimage') \<Rightarrow> apply_deltas env pre_reader postimage' diff (Suc i))
      else Some (None, postimage))"
  by pat_completeness auto
termination
  by (relation "measure (\<lambda>(env, pre_reader, postimage, diff, i). length diff - i)") auto

declare apply_deltas.simps [simp del]

text \<open>
  \<open>git_apply_tree\<close> gives the code it returns and the index it stores in \<open>*out\<close>, \<open>None\<close> for
  the null pointer. The tree is given by its entries.
\<close>

definition git_apply_tree ::
  "collaborators \<Rightarrow> git_index \<Rightarrow> git_diff_delta list \<Rightarrow> (error option \<times> git_index option) option" where
  "git_apply_tree env preimage diff =
     (case git_reader_for_tree env preimage of
        (Some c, pre_reader) \<Rightarrow> Some (Some (GIT_ERROR_CODE c), None)
      | (None, pre_reader) \<Rightarrow>
          (case git_index_read_tree (index_read_tree_code env) git_index_new preimage of
             (Some c, postimage) \<Rightarrow> Some (Some (GIT_ERROR_CODE c), None)
           | (None, postimage) \<Rightarrow>
               (case remove_old_paths env postimage diff 0 of
                  (Some e, postimage') \<Rightarrow> Some (Some e, None)
                | (None, postimage') \<Rightarrow>
                    (case apply_deltas env pre_reader postimage' diff 0 of
                       None \<Rightarrow> None
                     | Some (Some e, postimage'') \<Rightarrow> Some (Some e, None)
                     | Some (None, postimage'') \<Rightarrow> Some (None, Some postimage'')))))"

text \<open>
  \<open>git_apply\<close>, for a valid \<open>given_opts\<close>. The statement \<open>delta = git_diff_get_delta(diff, i)\<close>
  of its loop assigns a variable that the function neither declares nor reads; it has no
  counterpart here. Its last step, \<open>git_apply__to_index\<close> or
  \<open>git_apply__to_workdir\<close>, only calls the repository, its index and the checkout, none of
  them among the sources: the two are the parameters \<open>to_index\<close> and \<open>to_workdir\<close>, each from
  the postimage index to the code it returns.
\<close>

datatype git_apply_location_t =
  GIT_APPLY_LOCATION_WORKDIR | GIT_APPLY_LOCATION_INDEX | GIT_APPLY_LOCATION_BOTH

definition git_apply ::
  "collaborators \<Rightarrow> (git_index \<Rightarrow> int option) \<Rightarrow> (git_index \<Rightarrow> int option)
     \<Rightarrow> git_diff_delta list \<Rightarrow> git_apply_location_t \<Rightarrow> error option option" where
  "git_apply env to_index to_workdir diff location =
     (case (if location = GIT_APPLY_LOCATION_WORKDIR
            then git_reader_for_workdir env else git_reader_for_index env) of
        (Some c, pre_reader) \<Rightarrow> Some (Some (GIT_ERROR_CODE c))
      | (None, pre_reader) \<Rightarrow>
          (case apply_deltas env pre_reader git_index_new diff 0 of
             None \<Rightarrow> None
           | Some (Some e, postimage) \<Rightarrow> Some (Some e)
           | Some (None, postimage) \<Rightarrow>
               Some (map_option GIT_ERROR_CODE
                 (if location = GIT_APPLY_LOCATION_INDEX
                  then to_index postimage else to_workdir postimage))))"

subsection \<open>Notions of the specification\<close>

text \<open>
  The lines of a hunk, in order: the \<open>line_count\<close> lines from \<open>line_start\<close> on in the line
  table of the patch. A hunk holds only addition lines when all of these exist and have
  the origin of an addition.
\<close>

definition hunk_lines :: "git_patch \<Rightarrow> git_patch_hunk \<Rightarrow> git_diff_line list" where
  "hunk_lines patch h = take (line_count h) (drop (line_start h) (lines patch))"

definition only_additions :: "git_patch \<Rightarrow> git_patch_hunk \<Rightarrow> bool" where
  "only_additions patch h \<longleftrightarrow>
     line_start h + line_count h \<le> length (lines patch) \<and>
     list_all (\<lambda>l. origin l = GIT_DIFF_LINE_ADDITION) (hunk_lines patch h)"

text \<open>
  Hunks of additions that follow one another: \<open>n\<close> lines are in the image so far, fewer
  than \<open>2 ^ 32\<close>, and the anchor of the next hunk is not before them.
\<close>

fun hunks_appended :: "git_patch \<Rightarrow> nat \<Rightarrow> git_patch_hunk list \<Rightarrow> bool" where
  "hunks_appended patch n [] = True"
| "hunks_appended patch n (h # hs) =
     (only_additions patch h \<and> n \<le> hunk_line_num h \<and> n < 2 ^ 32 \<and>
      hunks_appended patch (n + line_count h) hs)"

text \<open>
  The index once the old paths of the given deltas have left it, one after the other in
  the order of the list; and the code that the removal for the delta at \<open>i\<close> returns when
  the removals for the deltas before it have been made.
\<close>

definition old_paths_removed :: "git_index \<Rightarrow> git_diff_delta list \<Rightarrow> git_index" where
  "old_paths_removed index ds =
     fold (\<lambda>d m. m(path (git_diff_delta.old_file d) := None)) ds index"

definition removal_code :: "collaborators \<Rightarrow> git_index \<Rightarrow> git_diff_delta list \<Rightarrow> nat \<Rightarrow> int option" where
  "removal_code env index diff i =
     index_remove_code env (old_paths_removed index (take i diff))
       (path (git_diff_delta.old_file (diff ! i)))"

subsection \<open>Inputs for the examples\<close>

definition diff_line :: "char \<Rightarrow> string \<Rightarrow> git_diff_line" where
  "diff_line og bytes = \<lparr>origin = og, content = bytes, content_len = length bytes, content_offset = 0\<rparr>"

definition hunk_at :: "32 word \<Rightarrow> nat \<Rightarrow> nat \<Rightarrow> git_patch_hunk" where
  "hunk_at ns first n = \<lparr>hunk = \<lparr>new_start = ns\<rparr>, line_start = first, line_count = n\<rparr>"

definition file_delta :: "git_delta_t \<Rightarrow> 32 word \<Rightarrow> git_diff_delta" where
  "file_delta st fl =
     \<lparr>status = st, flags = fl,
      old_file = \<lparr>path = ''old.txt'', mode = 33188\<rparr>,
      new_file = \<lparr>path = ''new.txt'', mode = 0\<rparr>\<rparr>"

definition no_payload :: git_diff_binary_file where
  "no_payload = \<lparr>type = GIT_DIFF_BINARY_NONE, data = [], datalen = 0, inflatedlen = 0\<rparr>"

definition literal_payload :: "string \<Rightarrow> nat \<Rightarrow> git_diff_binary_file" where
  "literal_payload bytes n =
     \<lparr>type = GIT_DIFF_BINARY_LITERAL, data = bytes, datalen = length bytes, inflatedlen = n\<rparr>"

definition no_binary :: git_diff_binary where
  "no_binary = \<lparr>contains_data = False, old_file = no_payload, new_file = no_payload\<rparr>"

definition text_patch ::
  "git_delta_t \<Rightarrow> git_patch_hunk list \<Rightarrow> git_diff_line list \<Rightarrow> git_patch" where
  "text_patch st hs ls = \<lparr>delta = file_delta st 0, binary = no_binary, hunks = hs, lines = ls\<rparr>"

definition binary_patch ::
  "git_delta_t \<Rightarrow> git_diff_binary_file \<Rightarrow> git_diff_binary_file \<Rightarrow> git_patch" where
  "binary_patch st old new =
     \<lparr>delta = file_delta st GIT_DIFF_FLAG_BINARY,
      binary = \<lparr>contains_data = True, old_file = old, new_file = new\<rparr>,
      hunks = [], lines = []\<rparr>"

text \<open>
  Two collaborators for the examples: an inflation of payloads that are stored as they
  are, and a delta application that always fails.
\<close>

definition stored_inflatebuf :: "string \<Rightarrow> int option \<times> string" where
  "stored_inflatebuf bytes = (None, bytes)"

definition failing_delta_apply :: "string \<Rightarrow> string \<Rightarrow> int option \<times> string" where
  "failing_delta_apply base delta_bytes = (Some (- 1), [])"

definition example_collaborators :: collaborators where
  "example_collaborators =
     \<lparr>git_zstream_inflatebuf = stored_inflatebuf,
      git_delta_apply = failing_delta_apply,
      git_patch_from_diff = (\<lambda>diff i. (None, text_patch (status (diff ! i)) [] [])),
      git_blob_create_frombuffer = (\<lambda>bytes. (None, bytes)),
      git_reader_for_tree = (\<lambda>tree. (None, (\<lambda>p. (None, ''contents'', [CHR 0x00])))),
      git_reader_for_workdir = (None, (\<lambda>p. (None, ''contents'', [CHR 0x00]))),
      git_reader_for_index = (None, (\<lambda>p. (None, ''contents'', [CHR 0x00]))),
      index_remove_code = (\<lambda>index p. None),
      index_add_code = (\<lambda>index p. None),
      index_read_tree_code = (\<lambda>tree. None)\<rparr>"

text \<open>
  The same collaborators with an index that reports the removal of a path it does not
  hold as an error, and a last step of \<open>git_apply\<close> that succeeds.
\<close>

definition strict_index_collaborators :: collaborators where
  "strict_index_collaborators =
     example_collaborators
       \<lparr>index_remove_code := (\<lambda>index p. if index p = None then Some GIT_ENOTFOUND else None)\<rparr>"

definition commit_ok :: "git_index \<Rightarrow> int option" where
  "commit_ok postimage = None"

subsection \<open>The batch of the specification\<close>

text \<open>
  \<open>spec_apply_batch\<close> follows the words of the specification, not the code: it selects the
  preimage reader by the location, creates an empty postimage index, removes the old path
  of every delta from it in declared order (the pre-pass), applies every delta in declared
  order, and commits; a step that fails ends it with its error.
\<close>

definition spec_apply_batch ::
  "collaborators \<Rightarrow> (git_index \<Rightarrow> int option) \<Rightarrow> (git_index \<Rightarrow> int option)
     \<Rightarrow> git_diff_delta list \<Rightarrow> git_apply_location_t \<Rightarrow> error option option" where
  "spec_apply_batch env to_index to_workdir diff location =
     (case (if location = GIT_APPLY_LOCATION_WORKDIR
            then git_reader_for_workdir env else git_reader_for_index env) of
        (Some c, pre_reader) \<Rightarrow> Some (Some (GIT_ERROR_CODE c))
      | (None, pre_reader) \<Rightarrow>
          (case remove_old_paths env git_index_new diff 0 of
             (Some e, postimage) \<Rightarrow> Some (Some e)
           | (None, postimage) \<Rightarrow>
               (case apply_deltas env pre_reader postimage diff 0 of
                  None \<Rightarrow> None
                | Some (Some e, postimage') \<Rightarrow> Some (Some e)
                | Some (None, postimage') \<Rightarrow>
                    Some (map_option GIT_ERROR_CODE
                      (if location = GIT_APPLY_LOCATION_INDEX
                       then to_index postimage' else to_workdir postimage')))))"

section \<open>Properties\<close>

lemmas example_defs = text_patch_def binary_patch_def hunk_at_def diff_line_def file_delta_def
  no_binary_def no_payload_def literal_payload_def stored_inflatebuf_def failing_delta_apply_def
  GIT_DIFF_LINE_CONTEXT_def GIT_DIFF_LINE_ADDITION_def GIT_DIFF_LINE_DELETION_def
  GIT_DIFF_FLAG_BINARY_def GIT_BUF_INIT_def

lemmas hunk_eval_defs = apply_hunk_def find_hunk_linenum_def match_hunk_def
  update_hunk_def hunk_line_num_def size_t_of_int_def uint_of_size_t_def
  git_array_get_def git_vector_get_def git_vector_insert_def git_vector_insert_null_def
  git_vector_remove_range_def git_buf_put_def memcmp_def patch_line_init_def Let_def
  apply_hunk_lines.simps match_hunk_loop.simps update_hunk_loop.simps

lemmas text_path_defs = hunk_eval_defs apply_hunks_def patch_image_init_fromstr_def
  patch_image_init_loop.simps

lemmas binary_path_defs = apply_binary_def apply_binary_delta_def memcmp_def git_buf_put_def

subsection \<open>Matching\<close>

lemma memcmp_zero_iff: "memcmp s1 s2 n = 0 \<longleftrightarrow> take n s1 = take n s2"
  by (simp add: memcmp_def)

lemma all_from_split:
  "i < n \<Longrightarrow> (\<forall>j. i \<le> j \<and> j < n \<longrightarrow> P j) \<longleftrightarrow> (P i \<and> (\<forall>j. Suc i \<le> j \<and> j < n \<longrightarrow> P j))"
proof (intro iffI conjI allI impI)
  assume H: "\<forall>j. i \<le> j \<and> j < n \<longrightarrow> P j" and "i < n"
  then show "P i" by simp
  fix j assume "Suc i \<le> j \<and> j < n"
  then have "i \<le> j \<and> j < n" by simp
  with H show "P j" by blast
next
  fix j
  assume H: "P i \<and> (\<forall>j. Suc i \<le> j \<and> j < n \<longrightarrow> P j)" and j: "i \<le> j \<and> j < n"
  show "P j"
  proof (cases "j = i")
    case True
    with H show ?thesis by simp
  next
    case False
    with j have "Suc i \<le> j \<and> j < n" by simp
    with H show ?thesis by blast
  qed
qed

lemma match_hunk_loop_step:
  assumes "i < length preimage" and "linenum + i < length img"
  shows "match_hunk_loop (map Some img) (map Some preimage) linenum i =
         (if content_len (img ! (linenum + i)) = content_len (preimage ! i) \<and>
             line_bytes (img ! (linenum + i)) = line_bytes (preimage ! i)
          then match_hunk_loop (map Some img) (map Some preimage) linenum (Suc i)
          else Some False)"
  using assms
  by (subst match_hunk_loop.simps)
     (auto simp: git_vector_get_def memcmp_zero_iff line_bytes_def)

lemma match_hunk_loop_done:
  "length preimage \<le> i \<Longrightarrow> match_hunk_loop img preimage linenum i = Some True"
  by (subst match_hunk_loop.simps) simp

lemma match_hunk_loop_eq:
  assumes "linenum + length preimage \<le> length img"
  shows "match_hunk_loop (map Some img) (map Some preimage) linenum i =
         Some (\<forall>j. i \<le> j \<and> j < length preimage \<longrightarrow>
                 content_len (img ! (linenum + j)) = content_len (preimage ! j) \<and>
                 line_bytes (img ! (linenum + j)) = line_bytes (preimage ! j))"
  using assms
proof (induction "length preimage - i" arbitrary: i)
  case 0
  then have "length (map Some preimage) \<le> i" by simp
  from match_hunk_loop_done[OF this] 0 show ?case by auto
next
  case (Suc k)
  then have i: "i < length preimage" by simp
  have k: "k = length preimage - Suc i" using Suc.hyps(2) by simp
  have in_range: "linenum + i < length img" using i Suc.prems by simp
  show ?case
    unfolding match_hunk_loop_step[OF i in_range] all_from_split[OF i]
    using Suc.hyps(1)[OF k Suc.prems] by auto
qed

lemma match_hunk_returns:
  "\<exists>m. match_hunk (map Some img) (map Some preimage) linenum = Some m \<and>
       (m \<longrightarrow> linenum + length preimage \<le> length img)"
proof (cases "linenum + length preimage \<le> length img")
  case True
  then show ?thesis
    using match_hunk_loop_eq[OF True, of 0] by (simp add: match_hunk_def add.commute)
next
  case False
  then show ?thesis by (auto simp: match_hunk_def add.commute)
qed

text \<open>
  Claim C2: for every image, preimage and line number, \<open>match_hunk\<close> returns true exactly
  when the preimage fits into the image from that line on and every line of the preimage
  has the length and the bytes of the image line it is compared with; nothing is
  normalised. The images are those without null entries.
\<close>

theorem match_hunk_iff:
  "match_hunk (map Some img) (map Some preimage) linenum =
     Some (linenum + length preimage \<le> length img \<and>
           (\<forall>i<length preimage.
              content_len (img ! (linenum + i)) = content_len (preimage ! i) \<and>
              line_bytes (img ! (linenum + i)) = line_bytes (preimage ! i)))"
proof (cases "linenum + length preimage \<le> length img")
  case True
  then show ?thesis
    using match_hunk_loop_eq[OF True, of 0] by (simp add: match_hunk_def add.commute)
next
  case False
  then show ?thesis by (simp add: match_hunk_def add.commute)
qed

subsection \<open>Splicing\<close>

lemma update_hunk_loop_done:
  "length postimage \<le> i \<Longrightarrow> update_hunk_loop img linenum postimage i = img"
  by (subst update_hunk_loop.simps) simp

lemma list_update_middle:
  "i < length Y \<Longrightarrow> (A @ Y @ B)[length A + i := v] = A @ Y[i := v] @ B"
  by (simp add: list_update_append)

lemma update_placeholder:
  assumes "i < length post" and "length X = length post"
  shows "(A @ (take i post @ drop i X) @ B)[length A + i := post ! i] =
         A @ (take (Suc i) post @ drop (Suc i) X) @ B"
proof -
  have d: "drop i X = X ! i # drop (Suc i) X"
    using assms by (simp add: Cons_nth_drop_Suc)
  have t: "take (Suc i) post = take i post @ [post ! i]"
    using assms by (simp add: take_Suc_conv_app_nth)
  have len: "length (take i post) = i"
    using assms by simp
  have upd: "(take i post @ drop i X)[i := post ! i] = take (Suc i) post @ drop (Suc i) X"
    unfolding d t using len by (simp add: list_update_append)
  have "i < length (take i post @ drop i X)"
    using assms by simp
  from list_update_middle[OF this, of A B "post ! i"] show ?thesis
    by (simp only: upd)
qed

lemma update_hunk_loop_splice:
  assumes "length X = length post" and "i \<le> length post"
  shows "update_hunk_loop (A @ (take i post @ drop i X) @ B) (length A) post i = A @ post @ B"
  using assms
proof (induction "length post - i" arbitrary: i)
  case 0
  then show ?case by (simp add: update_hunk_loop_done)
next
  case (Suc k)
  then have i: "i < length post" by simp
  have k: "k = length post - Suc i" using Suc.hyps(2) by simp
  have "update_hunk_loop (A @ (take i post @ drop i X) @ B) (length A) post i =
        update_hunk_loop ((A @ (take i post @ drop i X) @ B)[length A + i := post ! i])
          (length A) post (Suc i)"
    using i by (subst update_hunk_loop.simps) (simp add: git_vector_get_def)
  also have "\<dots> = A @ post @ B"
    using Suc.hyps(1)[OF k Suc.prems(1)] i
    by (simp only: update_placeholder[OF i Suc.prems(1)] Suc_leI)
  finally show ?case .
qed

lemma update_hunk_splice:
  assumes "linenum + length preimage \<le> length img"
  shows "update_hunk img linenum preimage postimage =
         take linenum img @ postimage @ drop (linenum + length preimage) img"
proof -
  let ?A = "take linenum img" and ?B = "drop (linenum + length preimage) img"
  have lenA: "length ?A = linenum" using assms by simp
  have loop: "update_hunk_loop (?A @ X @ ?B) linenum postimage 0 = ?A @ postimage @ ?B"
    if "length X = length postimage" for X
    using update_hunk_loop_splice[OF that, of 0 ?A ?B] lenA by simp
  have mid: "drop linenum img = take (length preimage) (drop linenum img) @ ?B"
  proof -
    have "drop (length preimage) (drop linenum img) = ?B"
      by (simp add: add.commute)
    then show ?thesis by (metis append_take_drop_id)
  qed
  consider (grow) "length postimage > length preimage"
    | (shrink) "length preimage > length postimage"
    | (same) "length preimage = length postimage" by linarith
  then show ?thesis
  proof cases
    case grow
    let ?X = "replicate (length postimage - length preimage) None @
              take (length preimage) (drop linenum img)"
    have "git_vector_insert_null img linenum (length postimage - length preimage) = ?A @ ?X @ ?B"
      using mid by (simp add: git_vector_insert_null_def)
    moreover have "length ?X = length postimage" using grow assms by simp
    ultimately show ?thesis using grow loop[of ?X] by (simp add: update_hunk_def Let_def)
  next
    case shrink
    let ?X = "take (length postimage) (drop (linenum + (length preimage - length postimage)) img)"
    have "drop (linenum + (length preimage - length postimage)) img = ?X @ ?B"
    proof -
      have "drop (length postimage) (drop (linenum + (length preimage - length postimage)) img) = ?B"
        using shrink by (simp add: add.commute add.left_commute)
      then show ?thesis by (metis append_take_drop_id)
    qed
    then have "git_vector_remove_range img linenum (length preimage - length postimage) = ?A @ ?X @ ?B"
      by (simp add: git_vector_remove_range_def)
    moreover have "length ?X = length postimage" using shrink assms by simp
    ultimately show ?thesis using shrink loop[of ?X] by (simp add: update_hunk_def Let_def)
  next
    case same
    let ?X = "take (length preimage) (drop linenum img)"
    have "img = ?A @ ?X @ ?B" using mid by (metis append_take_drop_id)
    moreover have "length ?X = length postimage" using same assms by simp
    ultimately show ?thesis using same loop[of ?X] by (simp add: update_hunk_def Let_def)
  qed
qed

subsection \<open>The anchor of a hunk\<close>

lemma hunk_line_num_positive:
  "0 < sint (new_start (hunk h)) \<Longrightarrow> hunk_line_num h = nat (sint (new_start (hunk h))) - 1"
proof -
  assume pos: "0 < sint (new_start (hunk h))"
  have "sint (new_start (hunk h)) < 2 ^ 31"
    using sint_lt[of "new_start (hunk h)"] by simp
  then have "(sint (new_start (hunk h)) - 1) mod 2 ^ 64 = sint (new_start (hunk h)) - 1"
    using pos by (intro mod_pos_pos_trivial) auto
  moreover have "new_start (hunk h) \<noteq> 0" using pos by auto
  ultimately show ?thesis
    by (simp add: hunk_line_num_def size_t_of_int_def nat_diff_distrib)
qed

text \<open>
  Claim C3: once the lines of a hunk are found, \<open>apply_hunk\<close> tries one line number only:
  0 when \<open>new_start\<close> is 0 and \<open>new_start - 1\<close> otherwise, not beyond the length of the image.
  It fails with the message \<open>hunk at line <new_start> did not apply\<close> exactly when the
  preimage does not match there, and when it matches there the image is updated at that
  line, whatever the other lines hold.
\<close>

theorem apply_hunk_single_anchor:
  assumes "apply_hunk_lines patch h 0 [] [] = Inr (preimage, postimage)"
  shows "(apply_hunk img patch h =
            Some (Some (apply_err (''hunk at line '' @ fmt_d (sint (new_start (hunk h))) @
                                   '' did not apply'')), img))
           = (match_hunk img preimage
                (min (if new_start (hunk h) = 0 then 0
                      else size_t_of_int (sint (new_start (hunk h)) - 1)) (length img)) = Some False)
         \<and> (match_hunk img preimage
                (min (if new_start (hunk h) = 0 then 0
                      else size_t_of_int (sint (new_start (hunk h)) - 1)) (length img)) = Some True
            \<longrightarrow> apply_hunk img patch h =
                  Some (None, update_hunk img
                    (uint_of_size_t
                       (min (if new_start (hunk h) = 0 then 0
                             else size_t_of_int (sint (new_start (hunk h)) - 1)) (length img)))
                    preimage postimage))"
proof -
  let ?target = "min (if new_start (hunk h) = 0 then 0
                      else size_t_of_int (sint (new_start (hunk h)) - 1)) (length img)"
  have clamp: "(if hunk_line_num h > length img then length img else hunk_line_num h) = ?target"
    by (simp add: hunk_line_num_def min_def)
  show ?thesis
  proof (cases "match_hunk img preimage ?target")
    case None
    then show ?thesis
      using assms clamp by (simp add: apply_hunk_def find_hunk_linenum_def Let_def)
  next
    case (Some m)
    then show ?thesis
      using assms clamp by (cases m) (simp_all add: apply_hunk_def find_hunk_linenum_def Let_def)
  qed
qed

subsection \<open>Hunks of additions\<close>

lemma addition_not_context: "GIT_DIFF_LINE_ADDITION \<noteq> GIT_DIFF_LINE_CONTEXT"
  and addition_not_deletion: "GIT_DIFF_LINE_ADDITION \<noteq> GIT_DIFF_LINE_DELETION"
  by (simp_all add: GIT_DIFF_LINE_ADDITION_def GIT_DIFF_LINE_CONTEXT_def GIT_DIFF_LINE_DELETION_def)

lemma length_hunk_lines:
  "line_start h + line_count h \<le> length (lines patch) \<Longrightarrow> length (hunk_lines patch h) = line_count h"
  by (simp add: hunk_lines_def)

lemma nth_hunk_lines:
  "line_start h + line_count h \<le> length (lines patch) \<Longrightarrow> i < line_count h \<Longrightarrow>
   hunk_lines patch h ! i = lines patch ! (line_start h + i)"
  by (simp add: hunk_lines_def)

lemma apply_hunk_lines_done:
  "line_count h \<le> i \<Longrightarrow> apply_hunk_lines patch h i pre post = Inr (pre, post)"
  by (subst apply_hunk_lines.simps) simp

lemma apply_hunk_lines_additions:
  assumes "only_additions patch h" and "i \<le> line_count h"
  shows "apply_hunk_lines patch h i pre post =
         Inr (pre, post @ map Some (drop i (hunk_lines patch h)))"
  using assms(2)
proof (induction "line_count h - i" arbitrary: i post)
  case 0
  then have "drop i (hunk_lines patch h) = []"
    by (simp add: hunk_lines_def)
  with 0 show ?case by (simp add: apply_hunk_lines_done)
next
  case (Suc k)
  then have i: "i < line_count h" by simp
  have k: "k = line_count h - Suc i" using Suc.hyps(2) by simp
  have range: "line_start h + line_count h \<le> length (lines patch)"
    using assms(1) by (simp add: only_additions_def)
  let ?line = "lines patch ! (line_start h + i)"
  have nth: "hunk_lines patch h ! i = ?line"
    using nth_hunk_lines[OF range i] .
  have "?line \<in> set (hunk_lines patch h)"
    using i length_hunk_lines[OF range] nth by (metis nth_mem)
  then have og: "origin ?line = GIT_DIFF_LINE_ADDITION"
    using assms(1) by (simp add: only_additions_def list_all_iff)
  have get: "git_array_get (lines patch) (line_start h + i) = Some ?line"
    using i range by (simp add: git_array_get_def)
  have step: "apply_hunk_lines patch h i pre post =
              apply_hunk_lines patch h (Suc i) pre (post @ [Some ?line])"
    using i get og
    by (subst apply_hunk_lines.simps)
       (simp add: Let_def git_vector_insert_def addition_not_context addition_not_deletion)
  have "drop i (hunk_lines patch h) = ?line # drop (Suc i) (hunk_lines patch h)"
    using i length_hunk_lines[OF range] nth by (metis Cons_nth_drop_Suc)
  then show ?case
    using Suc.hyps(1)[OF k, of "post @ [Some ?line]"] i step by simp
qed

lemma match_hunk_empty:
  "linenum \<le> length img \<Longrightarrow> match_hunk img [] linenum = Some True"
  by (simp add: match_hunk_def match_hunk_loop_done)

lemma apply_hunk_append:
  assumes "only_additions patch h" and "length img \<le> hunk_line_num h" and "length img < 2 ^ 32"
  shows "apply_hunk img patch h = Some (None, img @ map Some (hunk_lines patch h))"
proof -
  have parts: "apply_hunk_lines patch h 0 [] [] = Inr ([], map Some (hunk_lines patch h))"
    using apply_hunk_lines_additions[OF assms(1), of 0 "[]" "[]"] by simp
  have found: "find_hunk_linenum img [] (hunk_line_num h) = Some (length img, True)"
    using assms(2) by (auto simp: find_hunk_linenum_def Let_def match_hunk_empty)
  have trunc: "uint_of_size_t (length img) = length img"
    using assms(3) by (simp add: uint_of_size_t_def)
  have "update_hunk img (length img) [] (map Some (hunk_lines patch h)) =
        img @ map Some (hunk_lines patch h)"
    using update_hunk_splice[of "length img" "[]" img] by simp
  then show ?thesis
    by (simp add: apply_hunk_def parts found trunc)
qed

lemma apply_hunks_loop_append:
  "hunks_appended patch (length img) hs \<Longrightarrow>
   apply_hunks_loop img patch hs =
     Some (None, img @ map Some (concat (map (hunk_lines patch) hs)))"
proof (induction hs arbitrary: img)
  case Nil
  then show ?case by simp
next
  case (Cons h hs)
  then have h: "only_additions patch h" "length img \<le> hunk_line_num h" "length img < 2 ^ 32"
    and rest: "hunks_appended patch (length img + line_count h) hs"
    by simp_all
  have "length (img @ map Some (hunk_lines patch h)) = length img + line_count h"
    using h(1) by (simp add: only_additions_def length_hunk_lines)
  with rest Cons.IH[of "img @ map Some (hunk_lines patch h)"] apply_hunk_append[OF h]
  show ?case by simp
qed

lemma put_lines_all:
  "put_lines out_buf (map Some ls) = Some (out_buf @ concat (map line_bytes ls))"
  by (induction ls arbitrary: out_buf) (simp_all add: git_buf_put_def line_bytes_def)

lemma patch_image_init_fromstr_empty: "patch_image_init_fromstr mem 0 = Some []"
  by (simp add: patch_image_init_fromstr_def patch_image_init_loop.simps)

text \<open>
  Claim C9, amended: for an empty source and a patch whose delta is an addition, which is
  not binary, and whose hunks hold only addition lines and are each anchored at or after
  the end of the lines added before them, \<open>git_apply__patch\<close> succeeds and its contents are
  the bytes of the lines of the hunks, in order.
\<close>

theorem apply_patch_added_appends:
  assumes "status (delta patch) = GIT_DELTA_ADDED"
    and "flags (delta patch) AND GIT_DIFF_FLAG_BINARY = 0"
    and "hunks_appended patch 0 (hunks patch)"
  shows "git_apply__patch inflatebuf delta_apply GIT_BUF_INIT [] beyond patch =
         Some \<lparr>error = None,
               contents_out = concat (map line_bytes (concat (map (hunk_lines patch) (hunks patch)))),
               filename_out = Some (path (git_diff_delta.new_file (delta patch))),
               mode_out = (if mode (git_diff_delta.new_file (delta patch)) \<noteq> 0
                           then mode (git_diff_delta.new_file (delta patch))
                           else GIT_FILEMODE_BLOB)\<rparr>"
proof (cases "hunks patch = []")
  case True
  then show ?thesis
    using assms(1,2) by (simp add: git_apply__patch_def Let_def git_buf_put_def GIT_BUF_INIT_def)
next
  case False
  have "apply_hunks_loop [] patch (hunks patch) =
        Some (None, map Some (concat (map (hunk_lines patch) (hunks patch))))"
    using apply_hunks_loop_append[of patch "[]" "hunks patch"] assms(3) by simp
  then have "apply_hunks [] [] beyond patch =
        Some (None, concat (map line_bytes (concat (map (hunk_lines patch) (hunks patch)))))"
    by (simp add: apply_hunks_def patch_image_init_fromstr_empty put_lines_all)
  then show ?thesis
    using False assms(1,2) by (simp add: git_apply__patch_def Let_def GIT_BUF_INIT_def)
qed

subsection \<open>The line image\<close>

lemma memchr_first:
  assumes "s \<le> e" and "e < length mem" and "mem ! e = c"
    and "\<forall>j. s \<le> j \<and> j < e \<longrightarrow> mem ! j \<noteq> c" and "e - s < n"
  shows "memchr mem s c n = Some (Some e)"
  using assms
proof (induction n arbitrary: s)
  case 0
  then show ?case by simp
next
  case (Suc n)
  show ?case
  proof (cases "s = e")
    case True
    with Suc.prems show ?thesis by simp
  next
    case False
    with Suc.prems have later: "Suc s \<le> e" and here: "mem ! s \<noteq> c" and "s < length mem"
      by auto
    moreover have "\<forall>j. Suc s \<le> j \<and> j < e \<longrightarrow> mem ! j \<noteq> c"
      using Suc.prems(4) by auto
    moreover have "e - Suc s < n"
      using Suc.prems(5) later by linarith
    ultimately show ?thesis
      using Suc.IH[of "Suc s"] Suc.prems(2,3) by simp
  qed
qed

lemma memchr_absent:
  assumes "s + n \<le> length mem" and "\<forall>j. s \<le> j \<and> j < s + n \<longrightarrow> mem ! j \<noteq> c"
  shows "memchr mem s c n = Some None"
  using assms
proof (induction n arbitrary: s)
  case 0
  then show ?case by simp
next
  case (Suc n)
  then have "s < length mem" and "mem ! s \<noteq> c" by auto
  moreover have "memchr mem (Suc s) c n = Some None"
    using Suc.prems by (intro Suc.IH) auto
  ultimately show ?case by simp
qed

lemma first_newline:
  assumes "start < length source" and "last source = CHR 0x0A"
  obtains e where "start \<le> e" and "e < length source" and "source ! e = CHR 0x0A"
    and "\<forall>j. start \<le> j \<and> j < e \<longrightarrow> source ! j \<noteq> CHR 0x0A"
proof -
  let ?P = "\<lambda>e. start \<le> e \<and> e < length source \<and> source ! e = CHR 0x0A"
  have "source \<noteq> []" using assms(1) by auto
  then have "?P (length source - 1)"
    using assms by (simp add: last_conv_nth)
  then have ex: "\<exists>e. ?P e" by blast
  define e where "e = (LEAST e. ?P e)"
  have Pe: "?P e" unfolding e_def using ex by (rule LeastI_ex)
  have least: "\<not> ?P j" if "j < e" for j
    using that unfolding e_def by (rule not_less_Least)
  have "\<forall>j. start \<le> j \<and> j < e \<longrightarrow> source ! j \<noteq> CHR 0x0A"
  proof (intro allI impI)
    fix j assume j: "start \<le> j \<and> j < e"
    then have "j < length source" using Pe by linarith
    with least[of j] j show "source ! j \<noteq> CHR 0x0A" by blast
  qed
  with Pe that show thesis by blast
qed

text \<open>
  The search of \<open>patch_image_init_fromstr\<close> stays inside the buffer when every line has
  its newline in the buffer, and when the whole buffer is one line without a newline: for
  these buffers the image is built and its serialization is the buffer.
\<close>

lemma patch_image_init_loop_terminated:
  assumes "source = [] \<or> last source = CHR 0x0A" and "start \<le> length source"
  shows "\<exists>ls. patch_image_init_loop (source @ beyond) (length source) start acc =
                Some (acc @ map Some ls) \<and>
              concat (map line_bytes ls) = drop start source"
  using assms(2)
proof (induction "length source - start" arbitrary: start acc rule: less_induct)
  case less
  show ?case
  proof (cases "start < length source")
    case False
    with less.prems have "start = length source" by simp
    then have "patch_image_init_loop (source @ beyond) (length source) start acc = Some (acc @ map Some [])"
      by (subst patch_image_init_loop.simps) simp
    moreover have "concat (map line_bytes []) = drop start source"
      using \<open>start = length source\<close> by simp
    ultimately show ?thesis by blast
  next
    case True
    then have "last source = CHR 0x0A" using assms(1) by auto
    from first_newline[OF True this] obtain e where e:
      "start \<le> e" "e < length source" "source ! e = CHR 0x0A"
      "\<forall>j. start \<le> j \<and> j < e \<longrightarrow> source ! j \<noteq> CHR 0x0A"
      by blast
    let ?mem = "source @ beyond"
    have "memchr ?mem start CHR 0x0A (length source) = Some (Some e)"
    proof (rule memchr_first)
      show "start \<le> e" by (rule e(1))
      show "e < length ?mem" using e(2) by simp
      show "?mem ! e = CHR 0x0A" using e(2,3) by (simp add: nth_append)
      show "\<forall>j. start \<le> j \<and> j < e \<longrightarrow> ?mem ! j \<noteq> CHR 0x0A"
        using e(2,4) by (simp add: nth_append)
      show "e - start < length source" using e(2) by linarith
    qed
    then have step: "patch_image_init_loop ?mem (length source) start acc =
        patch_image_init_loop ?mem (length source) (e + 1)
          (acc @ [Some (patch_line_init (drop start ?mem) (e + 1 - start) start)])"
      using True e(2) by (subst patch_image_init_loop.simps) simp
    let ?line = "patch_line_init (drop start ?mem) (e + 1 - start) start"
    have "length source - (e + 1) < length source - start" using e(1,2) by linarith
    moreover have "e + 1 \<le> length source" using e(2) by simp
    ultimately obtain ls where ls:
      "patch_image_init_loop ?mem (length source) (e + 1) (acc @ [Some ?line]) =
         Some ((acc @ [Some ?line]) @ map Some ls)"
      "concat (map line_bytes ls) = drop (e + 1) source"
      using less.hyps[of "e + 1" "acc @ [Some ?line]"] by blast
    have "line_bytes ?line = take (e + 1 - start) (drop start source)"
      using e(2) by (simp add: line_bytes_def patch_line_init_def)
    moreover have "take (e + 1 - start) (drop start source) @ drop (e + 1) source = drop start source"
    proof -
      have "drop (e + 1) source = drop (e + 1 - start) (drop start source)"
        using e(1) by simp
      then show ?thesis by (metis append_take_drop_id)
    qed
    ultimately have "concat (map line_bytes (?line # ls)) = drop start source"
      using ls(2) by simp
    moreover have "patch_image_init_loop ?mem (length source) start acc =
                   Some (acc @ map Some (?line # ls))"
      using step ls(1) by simp
    ultimately show ?thesis by blast
  qed
qed

lemma patch_image_roundtrip_terminated:
  assumes "source = [] \<or> last source = CHR 0x0A"
  shows "\<exists>ls. patch_image_init_fromstr (source @ beyond) (length source) = Some (map Some ls) \<and>
              put_lines out_buf (map Some ls) = Some (out_buf @ source)"
proof -
  from patch_image_init_loop_terminated[OF assms, of 0 beyond "[]"]
  obtain ls where "patch_image_init_loop (source @ beyond) (length source) 0 [] = Some (map Some ls)"
    and "concat (map line_bytes ls) = source"
    by auto
  then show ?thesis
    by (auto simp: patch_image_init_fromstr_def put_lines_all)
qed

lemma patch_image_roundtrip_one_line:
  assumes "CHR 0x0A \<notin> set source"
  shows "\<exists>ls. patch_image_init_fromstr (source @ beyond) (length source) = Some (map Some ls) \<and>
              put_lines out_buf (map Some ls) = Some (out_buf @ source)"
proof (cases "source = []")
  case True
  then show ?thesis
    using patch_image_roundtrip_terminated[of source beyond out_buf] by simp
next
  case False
  let ?mem = "source @ beyond"
  have "memchr ?mem 0 CHR 0x0A (length source) = Some None"
  proof (rule memchr_absent)
    show "0 + length source \<le> length ?mem" by simp
    show "\<forall>j. 0 \<le> j \<and> j < 0 + length source \<longrightarrow> ?mem ! j \<noteq> CHR 0x0A"
      using assms by (auto simp: nth_append dest: nth_mem)
  qed
  then have "patch_image_init_loop ?mem (length source) 0 [] =
             patch_image_init_loop ?mem (length source) (length source)
               [Some (patch_line_init ?mem (length source) 0)]"
    using False by (subst patch_image_init_loop.simps) simp
  also have "\<dots> = Some [Some (patch_line_init ?mem (length source) 0)]"
    by (subst patch_image_init_loop.simps) simp
  finally have "patch_image_init_fromstr ?mem (length source) =
                Some (map Some [patch_line_init ?mem (length source) 0])"
    by (simp add: patch_image_init_fromstr_def)
  moreover have "put_lines out_buf (map Some [patch_line_init ?mem (length source) 0]) =
                 Some (out_buf @ source)"
    by (simp add: git_buf_put_def patch_line_init_def)
  ultimately show ?thesis by blast
qed

text \<open>
  Claim C1: serializing the line image built from a buffer reproduces the buffer. The
  code does not keep to it. Take the three bytes \<open>a\<close>, newline, \<open>b\<close> as the buffer, with
  the bytes \<open>c\<close>, newline after them in the same object. The search for the end of the
  second line runs past the end of the buffer and finds the newline that follows it: the
  second line gets two bytes, and the output is four bytes long. The fact is stated for
  the image, for its serialization, and for the application of a patch whose only hunk
  keeps the first line.
\<close>

theorem patch_image_overrun_breaks_roundtrip:
  "patch_image_init_fromstr (''a\<newline>b'' @ ''c\<newline>'') (length ''a\<newline>b'') =
     Some [Some (patch_line_init ''a\<newline>bc\<newline>'' 2 0), Some (patch_line_init ''bc\<newline>'' 2 2)] \<and>
   put_lines GIT_BUF_INIT
     [Some (patch_line_init ''a\<newline>bc\<newline>'' 2 0), Some (patch_line_init ''bc\<newline>'' 2 2)] =
     Some ''a\<newline>bc'' \<and>
   git_apply__patch stored_inflatebuf failing_delta_apply GIT_BUF_INIT ''a\<newline>b'' ''c\<newline>''
     (text_patch GIT_DELTA_MODIFIED [hunk_at 1 0 1] [diff_line CHR '' '' ''a\<newline>'']) =
     Some \<lparr>error = None, contents_out = ''a\<newline>bc'', filename_out = Some ''new.txt'',
           mode_out = GIT_FILEMODE_BLOB\<rparr>"
proof -
  let ?patch = "text_patch GIT_DELTA_MODIFIED [hunk_at 1 0 1] [diff_line CHR '' '' ''a\<newline>'']"
  have init: "patch_image_init_fromstr (''a\<newline>b'' @ ''c\<newline>'') (length ''a\<newline>b'') =
     Some [Some (patch_line_init ''a\<newline>bc\<newline>'' 2 0), Some (patch_line_init ''bc\<newline>'' 2 2)]"
    by code_simp
  have put: "put_lines GIT_BUF_INIT
     [Some (patch_line_init ''a\<newline>bc\<newline>'' 2 0), Some (patch_line_init ''bc\<newline>'' 2 2)] =
     Some ''a\<newline>bc''"
    by (simp add: GIT_BUF_INIT_def git_buf_put_def patch_line_init_def)
  have "apply_hunks GIT_BUF_INIT ''a\<newline>b'' ''c\<newline>'' ?patch = Some (None, ''a\<newline>bc'')"
    unfolding apply_hunks_def init
    by (simp add: example_defs hunk_eval_defs)
  then have "git_apply__patch stored_inflatebuf failing_delta_apply GIT_BUF_INIT ''a\<newline>b'' ''c\<newline>''
     ?patch =
     Some \<lparr>error = None, contents_out = ''a\<newline>bc'', filename_out = Some ''new.txt'',
           mode_out = GIT_FILEMODE_BLOB\<rparr>"
    by (simp add: git_apply__patch_def Let_def text_patch_def file_delta_def)
  with init put show ?thesis by simp
qed

text \<open>
  When nothing can be read after the same buffer, the search reads outside the object.
\<close>

lemma patch_image_overrun_reads_outside:
  "patch_image_init_fromstr (''a\<newline>b'' @ []) (length ''a\<newline>b'') = None"
  by code_simp

subsection \<open>Return of the application\<close>

text \<open>
  An image without null entries stays so under \<open>apply_hunk\<close>, which then always returns;
  so does \<open>git_apply__patch\<close> whenever the image of the source is built.
\<close>

lemma apply_hunk_lines_no_null:
  assumes "apply_hunk_lines patch h i (map Some pre) (map Some post) = Inr (preimage, postimage)"
  shows "\<exists>pre' post'. preimage = map Some pre' \<and> postimage = map Some post'"
  using assms
proof (induction "line_count h - i" arbitrary: i pre post)
  case 0
  then show ?case by (auto simp: apply_hunk_lines_done)
next
  case (Suc k)
  then have i: "i < line_count h" by simp
  have k: "k = line_count h - Suc i" using Suc.hyps(2) by simp
  from Suc.prems i obtain line where line: "git_array_get (lines patch) (line_start h + i) = Some line"
    by (subst (asm) apply_hunk_lines.simps) (auto simp: Let_def split: option.splits)
  let ?pre = "if origin line = GIT_DIFF_LINE_CONTEXT \<or> origin line = GIT_DIFF_LINE_DELETION
              then pre @ [line] else pre"
  let ?post = "if origin line = GIT_DIFF_LINE_CONTEXT \<or> origin line = GIT_DIFF_LINE_ADDITION
               then post @ [line] else post"
  have "apply_hunk_lines patch h i (map Some pre) (map Some post) =
        apply_hunk_lines patch h (Suc i) (map Some ?pre) (map Some ?post)"
    using i line
    by (subst apply_hunk_lines.simps) (simp add: Let_def git_vector_insert_def)
  with Suc.prems Suc.hyps(1)[OF k, of ?pre ?post] show ?case by simp
qed

lemma apply_hunk_no_null:
  "\<exists>e ls'. apply_hunk (map Some ls) patch h = Some (e, map Some ls')"
proof (cases "apply_hunk_lines patch h 0 [] []")
  case (Inl e)
  then show ?thesis by (auto simp: apply_hunk_def)
next
  case (Inr parts)
  obtain preimage postimage where parts: "parts = (preimage, postimage)"
    by (cases parts)
  with Inr apply_hunk_lines_no_null[of patch h 0 "[]" "[]" preimage postimage]
  obtain pre post where pp: "preimage = map Some pre" "postimage = map Some post"
    by auto
  let ?target = "if hunk_line_num h > length ls then length ls else hunk_line_num h"
  from match_hunk_returns[of ls pre ?target] obtain m where
    m: "match_hunk (map Some ls) (map Some pre) ?target = Some m"
    and fits_if: "m \<Longrightarrow> ?target + length pre \<le> length ls"
    by blast
  show ?thesis
  proof (cases m)
    case False
    with Inr parts pp m show ?thesis
      by (auto simp: apply_hunk_def find_hunk_linenum_def Let_def)
  next
    case True
    have "uint_of_size_t ?target \<le> ?target"
      by (simp add: uint_of_size_t_def)
    with fits_if[OF True]
    have fits: "uint_of_size_t ?target + length (map Some pre) \<le> length (map Some ls)"
      by simp
    have "update_hunk (map Some ls) (uint_of_size_t ?target) (map Some pre) (map Some post) =
          map Some (take (uint_of_size_t ?target) ls @ post @
                    drop (uint_of_size_t ?target + length pre) ls)"
      unfolding update_hunk_splice[OF fits] by (simp add: take_map drop_map)
    then have "\<exists>ls'. update_hunk (map Some ls) (uint_of_size_t ?target) (map Some pre)
                  (map Some post) = map Some ls'"
      by blast
    moreover have "apply_hunk (map Some ls) patch h =
          Some (None, update_hunk (map Some ls) (uint_of_size_t ?target) (map Some pre)
                  (map Some post))"
      using Inr parts pp m True
      by (simp add: apply_hunk_def find_hunk_linenum_def Let_def)
    ultimately show ?thesis by auto
  qed
qed

lemma apply_hunks_loop_no_null:
  "\<exists>e ls'. apply_hunks_loop (map Some ls) patch hs = Some (e, map Some ls')"
proof (induction hs arbitrary: ls)
  case Nil
  then show ?case by simp
next
  case (Cons h hs)
  from apply_hunk_no_null[of ls patch h] obtain e ls' where
    step: "apply_hunk (map Some ls) patch h = Some (e, map Some ls')"
    by blast
  show ?case
  proof (cases e)
    case None
    with step Cons.IH[of ls'] show ?thesis by simp
  next
    case (Some err)
    with step show ?thesis by auto
  qed
qed

lemma apply_hunks_returns:
  assumes "source = [] \<or> last source = CHR 0x0A \<or> CHR 0x0A \<notin> set source"
  shows "apply_hunks out_buf source beyond patch \<noteq> None"
proof -
  from assms obtain ls where
    "patch_image_init_fromstr (source @ beyond) (length source) = Some (map Some ls)"
    using patch_image_roundtrip_terminated[of source beyond out_buf]
          patch_image_roundtrip_one_line[of source beyond out_buf]
    by blast
  moreover from apply_hunks_loop_no_null[of ls patch "hunks patch"] obtain e ls' where
    "apply_hunks_loop (map Some ls) patch (hunks patch) = Some (e, map Some ls')"
    by blast
  ultimately show ?thesis
    by (cases e) (simp_all add: apply_hunks_def put_lines_all)
qed

lemma git_apply__patch_returns:
  assumes "flags (delta patch) AND GIT_DIFF_FLAG_BINARY \<noteq> 0 \<or> hunks patch = [] \<or>
           source = [] \<or> last source = CHR 0x0A \<or> CHR 0x0A \<notin> set source"
  shows "git_apply__patch inflatebuf delta_apply contents_out0 source beyond patch \<noteq> None"
proof (cases "flags (delta patch) AND GIT_DIFF_FLAG_BINARY \<noteq> 0 \<or> hunks patch = []")
  case True
  then show ?thesis
    by (auto simp: git_apply__patch_def Let_def split: option.splits prod.splits)
next
  case False
  with assms have "source = [] \<or> last source = CHR 0x0A \<or> CHR 0x0A \<notin> set source"
    by blast
  from apply_hunks_returns[OF this, of contents_out0 beyond patch] show ?thesis
    by (auto simp: git_apply__patch_def Let_def split: option.splits prod.splits)
qed

subsection \<open>Examples of hunks\<close>

theorem match_hunk_iff_witness:
  "match_hunk (map Some [diff_line CHR 0x00 ''A\<newline>'', diff_line CHR 0x00 ''B\<newline>''])
              (map Some [diff_line CHR '' '' ''B\<newline>'']) 1 = Some True \<and>
   match_hunk (map Some [diff_line CHR 0x00 ''A\<newline>'', diff_line CHR 0x00 ''B\<newline>''])
              (map Some [diff_line CHR '' '' ''B'']) 1 = Some False"
  using match_hunk_iff[where linenum = 1 and preimage = "[diff_line CHR '' '' ''B\<newline>'']"
          and img = "[diff_line CHR 0x00 ''A\<newline>'', diff_line CHR 0x00 ''B\<newline>'']"]
        match_hunk_iff[where linenum = 1 and preimage = "[diff_line CHR '' '' ''B'']"
          and img = "[diff_line CHR 0x00 ''A\<newline>'', diff_line CHR 0x00 ''B\<newline>'']"]
  by (simp add: diff_line_def line_bytes_def)

theorem apply_hunk_single_anchor_witness:
  "apply_hunk_lines
     (text_patch GIT_DELTA_MODIFIED [hunk_at 1 0 4]
        [diff_line CHR '' '' ''A\<newline>'', diff_line CHR ''-'' ''B\<newline>'',
         diff_line CHR ''+'' ''B2\<newline>'', diff_line CHR '' '' ''C\<newline>''])
     (hunk_at 1 0 4) 0 [] [] =
     Inr ([Some (diff_line CHR '' '' ''A\<newline>''), Some (diff_line CHR ''-'' ''B\<newline>''),
           Some (diff_line CHR '' '' ''C\<newline>'')],
          [Some (diff_line CHR '' '' ''A\<newline>''), Some (diff_line CHR ''+'' ''B2\<newline>''),
           Some (diff_line CHR '' '' ''C\<newline>'')]) \<and>
   match_hunk
     [Some (diff_line CHR 0x00 ''Z\<newline>''), Some (diff_line CHR 0x00 ''A\<newline>''),
      Some (diff_line CHR 0x00 ''B\<newline>''), Some (diff_line CHR 0x00 ''C\<newline>'')]
     [Some (diff_line CHR '' '' ''A\<newline>''), Some (diff_line CHR ''-'' ''B\<newline>''),
      Some (diff_line CHR '' '' ''C\<newline>'')] 1 = Some True \<and>
   apply_hunk
     [Some (diff_line CHR 0x00 ''Z\<newline>''), Some (diff_line CHR 0x00 ''A\<newline>''),
      Some (diff_line CHR 0x00 ''B\<newline>''), Some (diff_line CHR 0x00 ''C\<newline>'')]
     (text_patch GIT_DELTA_MODIFIED [hunk_at 1 0 4]
        [diff_line CHR '' '' ''A\<newline>'', diff_line CHR ''-'' ''B\<newline>'',
         diff_line CHR ''+'' ''B2\<newline>'', diff_line CHR '' '' ''C\<newline>''])
     (hunk_at 1 0 4) =
     Some (Some (apply_err ''hunk at line 1 did not apply''),
       [Some (diff_line CHR 0x00 ''Z\<newline>''), Some (diff_line CHR 0x00 ''A\<newline>''),
        Some (diff_line CHR 0x00 ''B\<newline>''), Some (diff_line CHR 0x00 ''C\<newline>'')]) \<and>
   apply_hunk
     [Some (diff_line CHR 0x00 ''A\<newline>''), Some (diff_line CHR 0x00 ''B\<newline>''),
      Some (diff_line CHR 0x00 ''C\<newline>'')]
     (text_patch GIT_DELTA_MODIFIED [hunk_at 1 0 4]
        [diff_line CHR '' '' ''A\<newline>'', diff_line CHR ''-'' ''B\<newline>'',
         diff_line CHR ''+'' ''B2\<newline>'', diff_line CHR '' '' ''C\<newline>''])
     (hunk_at 1 0 4) =
     Some (None,
       [Some (diff_line CHR '' '' ''A\<newline>''), Some (diff_line CHR ''+'' ''B2\<newline>''),
        Some (diff_line CHR '' '' ''C\<newline>'')])"
proof -
  let ?patch = "text_patch GIT_DELTA_MODIFIED [hunk_at 1 0 4]
        [diff_line CHR '' '' ''A\<newline>'', diff_line CHR ''-'' ''B\<newline>'',
         diff_line CHR ''+'' ''B2\<newline>'', diff_line CHR '' '' ''C\<newline>'']"
  let ?pre = "[Some (diff_line CHR '' '' ''A\<newline>''), Some (diff_line CHR ''-'' ''B\<newline>''),
           Some (diff_line CHR '' '' ''C\<newline>'')]"
  let ?post = "[Some (diff_line CHR '' '' ''A\<newline>''), Some (diff_line CHR ''+'' ''B2\<newline>''),
           Some (diff_line CHR '' '' ''C\<newline>'')]"
  let ?shifted = "[Some (diff_line CHR 0x00 ''Z\<newline>''), Some (diff_line CHR 0x00 ''A\<newline>''),
      Some (diff_line CHR 0x00 ''B\<newline>''), Some (diff_line CHR 0x00 ''C\<newline>'')]"
  let ?img = "[Some (diff_line CHR 0x00 ''A\<newline>''), Some (diff_line CHR 0x00 ''B\<newline>''),
      Some (diff_line CHR 0x00 ''C\<newline>'')]"
  have parts: "apply_hunk_lines ?patch (hunk_at 1 0 4) 0 [] [] = Inr (?pre, ?post)"
    by (simp add: example_defs apply_hunk_lines.simps git_array_get_def git_vector_insert_def Let_def)
  have target: "min (if new_start (hunk (hunk_at 1 0 4)) = 0 then 0
                     else size_t_of_int (sint (new_start (hunk (hunk_at 1 0 4))) - 1)) n = 0" for n
    by (simp add: hunk_at_def size_t_of_int_def)
  have msg: "fmt_d (sint (new_start (hunk (hunk_at 1 0 4)))) = ''1''"
    unfolding hunk_at_def by code_simp
  have elsewhere: "match_hunk ?shifted ?pre 1 = Some True"
    by (simp add: match_hunk_def match_hunk_loop.simps git_vector_get_def memcmp_def diff_line_def)
  have not_there: "match_hunk ?shifted ?pre 0 = Some False"
    by (simp add: match_hunk_def match_hunk_loop.simps git_vector_get_def memcmp_def diff_line_def)
  have there: "match_hunk ?img ?pre 0 = Some True"
    by (simp add: match_hunk_def match_hunk_loop.simps git_vector_get_def memcmp_def diff_line_def)
  have spliced: "update_hunk ?img (uint_of_size_t 0) ?pre ?post = ?post"
    by (simp add: update_hunk_def update_hunk_loop.simps git_vector_get_def uint_of_size_t_def)
  note anchor = apply_hunk_single_anchor[OF parts, unfolded target msg]
  from anchor[of ?shifted, THEN conjunct1] not_there
  have "apply_hunk ?shifted ?patch (hunk_at 1 0 4) =
          Some (Some (apply_err ''hunk at line 1 did not apply''), ?shifted)"
    by simp
  moreover from anchor[of ?img, THEN conjunct2, THEN mp, OF there]
  have "apply_hunk ?img ?patch (hunk_at 1 0 4) = Some (None, ?post)"
    unfolding spliced .
  ultimately show ?thesis
    using parts elsewhere by simp
qed

text \<open>
  Claim C9 as it is stated fails: two hunks that both give \<open>new_start = 1\<close> are both
  inserted at the top, so the line of the second hunk comes first.
\<close>

theorem additions_out_of_order_counterexample:
  "status (delta (text_patch GIT_DELTA_ADDED [hunk_at 1 0 1, hunk_at 1 1 1]
      [diff_line CHR ''+'' ''a\<newline>'', diff_line CHR ''+'' ''b\<newline>''])) = GIT_DELTA_ADDED \<and>
   only_additions (text_patch GIT_DELTA_ADDED [hunk_at 1 0 1, hunk_at 1 1 1]
      [diff_line CHR ''+'' ''a\<newline>'', diff_line CHR ''+'' ''b\<newline>'']) (hunk_at 1 0 1) \<and>
   only_additions (text_patch GIT_DELTA_ADDED [hunk_at 1 0 1, hunk_at 1 1 1]
      [diff_line CHR ''+'' ''a\<newline>'', diff_line CHR ''+'' ''b\<newline>'']) (hunk_at 1 1 1) \<and>
   concat (map line_bytes (concat (map
      (hunk_lines (text_patch GIT_DELTA_ADDED [hunk_at 1 0 1, hunk_at 1 1 1]
         [diff_line CHR ''+'' ''a\<newline>'', diff_line CHR ''+'' ''b\<newline>'']))
      [hunk_at 1 0 1, hunk_at 1 1 1]))) = ''a\<newline>b\<newline>'' \<and>
   git_apply__patch stored_inflatebuf failing_delta_apply GIT_BUF_INIT [] []
     (text_patch GIT_DELTA_ADDED [hunk_at 1 0 1, hunk_at 1 1 1]
        [diff_line CHR ''+'' ''a\<newline>'', diff_line CHR ''+'' ''b\<newline>'']) =
     Some \<lparr>error = None, contents_out = ''b\<newline>a\<newline>'', filename_out = Some ''new.txt'',
           mode_out = GIT_FILEMODE_BLOB\<rparr>"
  by (simp add: example_defs text_path_defs git_apply__patch_def only_additions_def
        hunk_lines_def line_bytes_def)

subsection \<open>Binary patches\<close>

lemma apply_binary_error_disposes:
  "apply_binary inflatebuf delta_apply out_buf source patch = (Some e, contents) \<Longrightarrow> contents = []"
  by (auto simp: apply_binary_def split: if_splits prod.splits option.splits)

lemma apply_hunks_error_keeps_out:
  "apply_hunks out_buf source beyond patch = Some (Some e, contents) \<Longrightarrow> contents = out_buf"
  by (auto simp: apply_hunks_def split: option.splits prod.splits)

lemma memcmp_same_length:
  "length s1 = length s2 \<Longrightarrow> memcmp s1 s2 (length s1) = 0 \<longleftrightarrow> s1 = s2"
  by (simp add: memcmp_def)

text \<open>
  Claim C4: for a binary patch that contains data and has a payload that is not empty,
  \<open>apply_binary\<close> succeeds only when the payload of the old file, applied to what the payload
  of the new file gave, gives the source back, byte for byte; and when both payloads apply
  and the bytes differ from the source, it fails with \<open>binary patch did not apply cleanly\<close>
  and leaves its output empty.
\<close>

theorem apply_binary_checks_reverse:
  assumes "contains_data (binary patch)"
    and "datalen (git_diff_binary.old_file (binary patch)) \<noteq> 0 \<or>
         datalen (git_diff_binary.new_file (binary patch)) \<noteq> 0"
  shows "(\<forall>forward. apply_binary inflatebuf delta_apply GIT_BUF_INIT source patch = (None, forward) \<longrightarrow>
            apply_binary_delta inflatebuf delta_apply GIT_BUF_INIT source
              (git_diff_binary.new_file (binary patch)) = (None, forward) \<and>
            apply_binary_delta inflatebuf delta_apply GIT_BUF_INIT forward
              (git_diff_binary.old_file (binary patch)) = (None, source)) \<and>
         (\<forall>forward reverse.
            apply_binary_delta inflatebuf delta_apply GIT_BUF_INIT source
              (git_diff_binary.new_file (binary patch)) = (None, forward) \<and>
            apply_binary_delta inflatebuf delta_apply GIT_BUF_INIT forward
              (git_diff_binary.old_file (binary patch)) = (None, reverse) \<and>
            reverse \<noteq> source \<longrightarrow>
            apply_binary inflatebuf delta_apply GIT_BUF_INIT source patch =
              (Some (apply_err ''binary patch did not apply cleanly''), []))"
proof (intro conjI allI impI)
  fix forward
  assume ok: "apply_binary inflatebuf delta_apply GIT_BUF_INIT source patch = (None, forward)"
  obtain e1 out1 where first:
    "apply_binary_delta inflatebuf delta_apply GIT_BUF_INIT source
       (git_diff_binary.new_file (binary patch)) = (e1, out1)"
    by (cases "apply_binary_delta inflatebuf delta_apply GIT_BUF_INIT source
                 (git_diff_binary.new_file (binary patch))")
  obtain e2 rev where second:
    "apply_binary_delta inflatebuf delta_apply GIT_BUF_INIT out1
       (git_diff_binary.old_file (binary patch)) = (e2, rev)"
    by (cases "apply_binary_delta inflatebuf delta_apply GIT_BUF_INIT out1
                 (git_diff_binary.old_file (binary patch))")
  from ok assms first second have "e1 = None \<and> e2 = None \<and> out1 = forward \<and> rev = source"
    by (auto simp: apply_binary_def memcmp_def split: if_splits option.splits)
  with first second
  show "apply_binary_delta inflatebuf delta_apply GIT_BUF_INIT source
          (git_diff_binary.new_file (binary patch)) = (None, forward)"
    and "apply_binary_delta inflatebuf delta_apply GIT_BUF_INIT forward
          (git_diff_binary.old_file (binary patch)) = (None, source)"
    by simp_all
next
  fix forward reverse
  assume "apply_binary_delta inflatebuf delta_apply GIT_BUF_INIT source
            (git_diff_binary.new_file (binary patch)) = (None, forward) \<and>
          apply_binary_delta inflatebuf delta_apply GIT_BUF_INIT forward
            (git_diff_binary.old_file (binary patch)) = (None, reverse) \<and>
          reverse \<noteq> source"
  with assms
  show "apply_binary inflatebuf delta_apply GIT_BUF_INIT source patch =
          (Some (apply_err ''binary patch did not apply cleanly''), [])"
    by (auto simp: apply_binary_def memcmp_def)
qed

text \<open>
  Claim C5: for a payload with \<open>datalen > 0\<close>, \<open>apply_binary_delta\<close> fails with
  \<open>inflated delta does not match expected length\<close> exactly when the payload was inflated
  and the size of the result is not \<open>inflatedlen\<close>; the output is then empty.
\<close>

theorem inflated_length_is_checked:
  assumes "datalen binary_file > 0"
  shows "(fst (apply_binary_delta inflatebuf delta_apply out_buf source binary_file) =
            Some (apply_err ''inflated delta does not match expected length''))
           = (fst (inflatebuf (take (datalen binary_file) (data binary_file))) = None \<and>
              length (snd (inflatebuf (take (datalen binary_file) (data binary_file)))) \<noteq>
                inflatedlen binary_file)
         \<and> (fst (inflatebuf (take (datalen binary_file) (data binary_file))) = None \<and>
              length (snd (inflatebuf (take (datalen binary_file) (data binary_file)))) \<noteq>
                inflatedlen binary_file
            \<longrightarrow> snd (apply_binary_delta inflatebuf delta_apply out_buf source binary_file) = [])"
  using assms
  by (cases "inflatebuf (take (datalen binary_file) (data binary_file))";
      cases "delta_apply source (snd (inflatebuf (take (datalen binary_file) (data binary_file))))")
     (auto simp: apply_binary_delta_def split: option.splits git_diff_binary_t.splits)

theorem apply_binary_checks_reverse_witness:
  "contains_data (binary (binary_patch GIT_DELTA_MODIFIED
      (literal_payload ''ab'' 2) (literal_payload ''xyz'' 3))) \<and>
   apply_binary stored_inflatebuf failing_delta_apply GIT_BUF_INIT ''ab''
     (binary_patch GIT_DELTA_MODIFIED (literal_payload ''ab'' 2) (literal_payload ''xyz'' 3)) =
     (None, ''xyz'') \<and>
   apply_binary_delta stored_inflatebuf failing_delta_apply GIT_BUF_INIT ''xyz''
     (literal_payload ''ab'' 2) = (None, ''ab'') \<and>
   apply_binary_delta stored_inflatebuf failing_delta_apply GIT_BUF_INIT ''xyz''
     (literal_payload ''ac'' 2) = (None, ''ac'') \<and>
   apply_binary stored_inflatebuf failing_delta_apply GIT_BUF_INIT ''ab''
     (binary_patch GIT_DELTA_MODIFIED (literal_payload ''ac'' 2) (literal_payload ''xyz'' 3)) =
     (Some (apply_err ''binary patch did not apply cleanly''), [])"
proof -
  let ?good = "binary_patch GIT_DELTA_MODIFIED (literal_payload ''ab'' 2) (literal_payload ''xyz'' 3)"
  let ?bad = "binary_patch GIT_DELTA_MODIFIED (literal_payload ''ac'' 2) (literal_payload ''xyz'' 3)"
  have data: "contains_data (binary ?good)" "contains_data (binary ?bad)"
    by (simp_all add: binary_patch_def)
  have payload:
    "datalen (git_diff_binary.old_file (binary ?good)) \<noteq> 0 \<or>
     datalen (git_diff_binary.new_file (binary ?good)) \<noteq> 0"
    "datalen (git_diff_binary.old_file (binary ?bad)) \<noteq> 0 \<or>
     datalen (git_diff_binary.new_file (binary ?bad)) \<noteq> 0"
    by (simp_all add: binary_patch_def literal_payload_def)
  have applied: "apply_binary stored_inflatebuf failing_delta_apply GIT_BUF_INIT ''ab'' ?good =
                 (None, ''xyz'')"
    by (simp add: example_defs binary_path_defs)
  have forward: "apply_binary_delta stored_inflatebuf failing_delta_apply GIT_BUF_INIT ''ab''
                   (git_diff_binary.new_file (binary ?bad)) = (None, ''xyz'')"
    by (simp add: example_defs binary_path_defs)
  have reverse: "apply_binary_delta stored_inflatebuf failing_delta_apply GIT_BUF_INIT ''xyz''
                   (git_diff_binary.old_file (binary ?bad)) = (None, ''ac'')"
    by (simp add: example_defs binary_path_defs)
  have old_good: "git_diff_binary.old_file (binary ?good) = literal_payload ''ab'' 2"
    and old_bad: "git_diff_binary.old_file (binary ?bad) = literal_payload ''ac'' 2"
    by (simp_all add: binary_patch_def)
  have differs: "forward \<and> reverse \<and> ''ac'' \<noteq> ''ab''"
    if "forward" and "reverse" for forward reverse
    using that by simp
  from apply_binary_checks_reverse[OF data(1) payload(1),
         of stored_inflatebuf failing_delta_apply "''ab''",
         THEN conjunct1, THEN spec, THEN mp, OF applied, THEN conjunct2]
  have "apply_binary_delta stored_inflatebuf failing_delta_apply GIT_BUF_INIT ''xyz''
          (literal_payload ''ab'' 2) = (None, ''ab'')"
    unfolding old_good .
  moreover
  from apply_binary_checks_reverse[OF data(2) payload(2),
         of stored_inflatebuf failing_delta_apply "''ab''",
         THEN conjunct2, THEN spec, THEN spec, THEN mp, OF differs[OF forward reverse]]
  have "apply_binary stored_inflatebuf failing_delta_apply GIT_BUF_INIT ''ab'' ?bad =
          (Some (apply_err ''binary patch did not apply cleanly''), [])" .
  ultimately show ?thesis
    using data(1) applied reverse old_bad by simp
qed

theorem inflated_length_is_checked_witness:
  "datalen (literal_payload ''xyz'' 4) > 0 \<and>
   fst (stored_inflatebuf (take (datalen (literal_payload ''xyz'' 4)) (data (literal_payload ''xyz'' 4))))
     = None \<and>
   fst (apply_binary_delta stored_inflatebuf failing_delta_apply ''old'' ''ab''
          (literal_payload ''xyz'' 4)) =
     Some (apply_err ''inflated delta does not match expected length'') \<and>
   snd (apply_binary_delta stored_inflatebuf failing_delta_apply ''old'' ''ab''
          (literal_payload ''xyz'' 4)) = [] \<and>
   fst (apply_binary_delta stored_inflatebuf failing_delta_apply ''old'' ''ab''
          (literal_payload ''xyz'' 3)) \<noteq>
     Some (apply_err ''inflated delta does not match expected length'')"
proof -
  have pos: "datalen (literal_payload ''xyz'' 4) > 0" "datalen (literal_payload ''xyz'' 3) > 0"
    by (simp_all add: literal_payload_def)
  from inflated_length_is_checked[OF pos(1), of stored_inflatebuf failing_delta_apply "''old''" "''ab''"]
       inflated_length_is_checked[OF pos(2), of stored_inflatebuf failing_delta_apply "''old''" "''ab''"]
       pos(1)
  show ?thesis
    by (simp add: literal_payload_def stored_inflatebuf_def)
qed

subsection \<open>The patch of one file\<close>

text \<open>
  Claim C6: for a patch whose delta is a deletion, \<open>git_apply__patch\<close> leaves a null
  filename and the mode 0; a success has empty contents, and contents that are not empty
  come with the error \<open>removal patch leaves file contents\<close>. The function returns whenever
  the patch is binary or has no hunks, or the source is empty, ends in a newline or has
  no newline.
\<close>

theorem apply_patch_deleted:
  assumes "status (delta patch) = GIT_DELTA_DELETED"
  shows "(\<forall>r. git_apply__patch inflatebuf delta_apply GIT_BUF_INIT source beyond patch = Some r \<longrightarrow>
            filename_out r = None \<and> mode_out r = 0 \<and>
            (error r = None \<longrightarrow> contents_out r = []) \<and>
            (contents_out r \<noteq> [] \<longrightarrow>
               error r = Some (apply_err ''removal patch leaves file contents''))) \<and>
         (flags (delta patch) AND GIT_DIFF_FLAG_BINARY \<noteq> 0 \<or> hunks patch = [] \<or>
          source = [] \<or> last source = CHR 0x0A \<or> CHR 0x0A \<notin> set source \<longrightarrow>
            git_apply__patch inflatebuf delta_apply GIT_BUF_INIT source beyond patch \<noteq> None)"
proof (intro conjI allI impI)
  fix r
  assume r: "git_apply__patch inflatebuf delta_apply GIT_BUF_INIT source beyond patch = Some r"
  let ?applied = "if flags (delta patch) AND GIT_DIFF_FLAG_BINARY \<noteq> 0
             then Some (apply_binary inflatebuf delta_apply GIT_BUF_INIT source patch)
             else if hunks patch \<noteq> []
             then apply_hunks GIT_BUF_INIT source beyond patch
             else Some (None, git_buf_put GIT_BUF_INIT source (length source))"
  from r obtain e contents where applied: "?applied = Some (e, contents)"
    by (auto simp: git_apply__patch_def Let_def split: option.splits)
  have failed_empty: "contents = []" if "e \<noteq> None"
    using that applied apply_binary_error_disposes apply_hunks_error_keeps_out
    by (auto simp: GIT_BUF_INIT_def split: if_splits)
  from r applied assms
  have shape: "r = (case e of
           Some e' \<Rightarrow> \<lparr>error = Some e', contents_out = contents, filename_out = None, mode_out = 0\<rparr>
         | None \<Rightarrow>
             (if length contents > 0
              then \<lparr>error = Some (apply_err ''removal patch leaves file contents''),
                    contents_out = contents, filename_out = None, mode_out = 0\<rparr>
              else \<lparr>error = None, contents_out = contents, filename_out = None, mode_out = 0\<rparr>))"
    by (auto simp: git_apply__patch_def Let_def split: option.splits if_splits)
  show "filename_out r = None" and "mode_out r = 0"
    using shape by (auto split: option.splits)
  show "contents_out r = []" if "error r = None"
    using shape that by (auto split: option.splits if_splits)
  show "error r = Some (apply_err ''removal patch leaves file contents'')" if "contents_out r \<noteq> []"
    using shape that failed_empty by (cases e) (auto split: if_splits)
next
  assume "flags (delta patch) AND GIT_DIFF_FLAG_BINARY \<noteq> 0 \<or> hunks patch = [] \<or>
          source = [] \<or> last source = CHR 0x0A \<or> CHR 0x0A \<notin> set source"
  then show "git_apply__patch inflatebuf delta_apply GIT_BUF_INIT source beyond patch \<noteq> None"
    by (rule git_apply__patch_returns)
qed

text \<open>
  Claim C7: for a patch that is not a deletion, is not binary and has no hunks,
  \<open>git_apply__patch\<close> succeeds; its contents are the source, its filename is the path of the
  new file, and its mode is that of the new file, or \<open>GIT_FILEMODE_BLOB\<close> when that is 0.
\<close>

theorem apply_patch_without_hunks:
  assumes "status (delta patch) \<noteq> GIT_DELTA_DELETED"
    and "flags (delta patch) AND GIT_DIFF_FLAG_BINARY = 0"
    and "hunks patch = []"
  shows "git_apply__patch inflatebuf delta_apply GIT_BUF_INIT source beyond patch =
         Some \<lparr>error = None, contents_out = source,
               filename_out = Some (path (git_diff_delta.new_file (delta patch))),
               mode_out = (if mode (git_diff_delta.new_file (delta patch)) \<noteq> 0
                           then mode (git_diff_delta.new_file (delta patch))
                           else GIT_FILEMODE_BLOB)\<rparr>"
  using assms by (simp add: git_apply__patch_def Let_def git_buf_put_def GIT_BUF_INIT_def)

text \<open>
  Claim C10: whenever \<open>git_apply__patch\<close> returns an error, the filename it leaves is null
  and the mode is 0, whatever the caller's buffer held; the two are assigned when it
  returns 0, and only then. It returns under the conditions given for claim C6.
\<close>

theorem apply_patch_error_outputs:
  "(\<forall>r. git_apply__patch inflatebuf delta_apply contents_out0 source beyond patch = Some r \<longrightarrow>
      (error r \<noteq> None \<longrightarrow> filename_out r = None \<and> mode_out r = 0) \<and>
      (error r = None \<longrightarrow>
         filename_out r =
           (if status (delta patch) \<noteq> GIT_DELTA_DELETED
            then Some (path (git_diff_delta.new_file (delta patch))) else None) \<and>
         mode_out r =
           (if status (delta patch) \<noteq> GIT_DELTA_DELETED
            then (if mode (git_diff_delta.new_file (delta patch)) \<noteq> 0
                  then mode (git_diff_delta.new_file (delta patch)) else GIT_FILEMODE_BLOB)
            else 0))) \<and>
   (flags (delta patch) AND GIT_DIFF_FLAG_BINARY \<noteq> 0 \<or> hunks patch = [] \<or>
    source = [] \<or> last source = CHR 0x0A \<or> CHR 0x0A \<notin> set source \<longrightarrow>
      git_apply__patch inflatebuf delta_apply contents_out0 source beyond patch \<noteq> None)"
proof (intro conjI allI impI)
  fix r
  assume r: "git_apply__patch inflatebuf delta_apply contents_out0 source beyond patch = Some r"
  let ?applied = "if flags (delta patch) AND GIT_DIFF_FLAG_BINARY \<noteq> 0
             then Some (apply_binary inflatebuf delta_apply contents_out0 source patch)
             else if hunks patch \<noteq> []
             then apply_hunks contents_out0 source beyond patch
             else Some (None, git_buf_put contents_out0 source (length source))"
  from r obtain e contents where applied: "?applied = Some (e, contents)"
    by (auto simp: git_apply__patch_def Let_def split: option.splits)
  show "filename_out r = None" and "mode_out r = 0" if "error r \<noteq> None"
    using r applied that
    by (cases e; auto simp: git_apply__patch_def Let_def split: if_splits)+
  show "filename_out r =
           (if status (delta patch) \<noteq> GIT_DELTA_DELETED
            then Some (path (git_diff_delta.new_file (delta patch))) else None)"
    and "mode_out r =
           (if status (delta patch) \<noteq> GIT_DELTA_DELETED
            then (if mode (git_diff_delta.new_file (delta patch)) \<noteq> 0
                  then mode (git_diff_delta.new_file (delta patch)) else GIT_FILEMODE_BLOB)
            else 0)"
    if "error r = None"
    using r applied that
    by (cases e; auto simp: git_apply__patch_def Let_def split: if_splits)+
next
  assume "flags (delta patch) AND GIT_DIFF_FLAG_BINARY \<noteq> 0 \<or> hunks patch = [] \<or>
    source = [] \<or> last source = CHR 0x0A \<or> CHR 0x0A \<notin> set source"
  then show "git_apply__patch inflatebuf delta_apply contents_out0 source beyond patch \<noteq> None"
    by (rule git_apply__patch_returns)
qed

theorem apply_patch_deleted_witness:
  "status (delta (text_patch GIT_DELTA_DELETED [hunk_at 1 0 1] [diff_line CHR ''-'' ''A\<newline>'']))
     = GIT_DELTA_DELETED \<and>
   git_apply__patch stored_inflatebuf failing_delta_apply GIT_BUF_INIT ''A\<newline>'' [CHR 0x00]
     (text_patch GIT_DELTA_DELETED [hunk_at 1 0 1] [diff_line CHR ''-'' ''A\<newline>'']) =
     Some \<lparr>error = None, contents_out = [], filename_out = None, mode_out = 0\<rparr> \<and>
   git_apply__patch stored_inflatebuf failing_delta_apply GIT_BUF_INIT ''A\<newline>B\<newline>'' [CHR 0x00]
     (text_patch GIT_DELTA_DELETED [hunk_at 1 0 1] [diff_line CHR ''-'' ''A\<newline>'']) =
     Some \<lparr>error = Some (apply_err ''removal patch leaves file contents''),
           contents_out = ''B\<newline>'', filename_out = None, mode_out = 0\<rparr>"
proof -
  let ?patch = "text_patch GIT_DELTA_DELETED [hunk_at 1 0 1] [diff_line CHR ''-'' ''A\<newline>'']"
  have deleted: "status (delta ?patch) = GIT_DELTA_DELETED"
    by (simp add: text_patch_def file_delta_def)
  have emptied: "map_option contents_out
      (git_apply__patch stored_inflatebuf failing_delta_apply GIT_BUF_INIT ''A\<newline>'' [CHR 0x00] ?patch)
      = Some []"
    and no_error: "map_option error
      (git_apply__patch stored_inflatebuf failing_delta_apply GIT_BUF_INIT ''A\<newline>'' [CHR 0x00] ?patch)
      = Some None"
    by (simp_all add: example_defs text_path_defs git_apply__patch_def)
  have left: "map_option contents_out
      (git_apply__patch stored_inflatebuf failing_delta_apply GIT_BUF_INIT ''A\<newline>B\<newline>''
         [CHR 0x00] ?patch) = Some ''B\<newline>''"
    by (simp add: example_defs text_path_defs git_apply__patch_def)
  obtain r1 where r1: "git_apply__patch stored_inflatebuf failing_delta_apply GIT_BUF_INIT
      ''A\<newline>'' [CHR 0x00] ?patch = Some r1"
    using emptied by (cases "git_apply__patch stored_inflatebuf failing_delta_apply GIT_BUF_INIT
      ''A\<newline>'' [CHR 0x00] ?patch") simp_all
  obtain r2 where r2: "git_apply__patch stored_inflatebuf failing_delta_apply GIT_BUF_INIT
      ''A\<newline>B\<newline>'' [CHR 0x00] ?patch = Some r2"
    using left by (cases "git_apply__patch stored_inflatebuf failing_delta_apply GIT_BUF_INIT
      ''A\<newline>B\<newline>'' [CHR 0x00] ?patch") simp_all
  from apply_patch_deleted[OF deleted, THEN conjunct1, THEN spec, THEN mp, OF r1]
       emptied no_error r1
  have "r1 = \<lparr>error = None, contents_out = [], filename_out = None, mode_out = 0\<rparr>"
    by simp
  moreover
  from apply_patch_deleted[OF deleted, THEN conjunct1, THEN spec, THEN mp, OF r2] left r2
  have "r2 = \<lparr>error = Some (apply_err ''removal patch leaves file contents''),
           contents_out = ''B\<newline>'', filename_out = None, mode_out = 0\<rparr>"
    by simp
  ultimately show ?thesis
    using deleted r1 r2 by simp
qed

theorem apply_patch_without_hunks_witness:
  "status (delta (text_patch GIT_DELTA_RENAMED [] [])) \<noteq> GIT_DELTA_DELETED \<and>
   flags (delta (text_patch GIT_DELTA_RENAMED [] [])) AND GIT_DIFF_FLAG_BINARY = 0 \<and>
   hunks (text_patch GIT_DELTA_RENAMED [] []) = [] \<and>
   git_apply__patch stored_inflatebuf failing_delta_apply GIT_BUF_INIT ''data'' [CHR 0x00]
     (text_patch GIT_DELTA_RENAMED [] []) =
     Some \<lparr>error = None, contents_out = ''data'', filename_out = Some ''new.txt'',
           mode_out = GIT_FILEMODE_BLOB\<rparr>"
proof -
  let ?patch = "text_patch GIT_DELTA_RENAMED [] []"
  have h: "status (delta ?patch) \<noteq> GIT_DELTA_DELETED"
    "flags (delta ?patch) AND GIT_DIFF_FLAG_BINARY = 0" "hunks ?patch = []"
    by (simp_all add: text_patch_def file_delta_def)
  from apply_patch_without_hunks[OF h, of stored_inflatebuf failing_delta_apply "''data''" "[CHR 0x00]"] h
  show ?thesis
    by (simp add: text_patch_def file_delta_def)
qed

theorem apply_patch_added_appends_witness:
  "status (delta (text_patch GIT_DELTA_ADDED [hunk_at 1 0 1, hunk_at 2 1 1]
      [diff_line CHR ''+'' ''a\<newline>'', diff_line CHR ''+'' ''b\<newline>''])) = GIT_DELTA_ADDED \<and>
   flags (delta (text_patch GIT_DELTA_ADDED [hunk_at 1 0 1, hunk_at 2 1 1]
      [diff_line CHR ''+'' ''a\<newline>'', diff_line CHR ''+'' ''b\<newline>''])) AND GIT_DIFF_FLAG_BINARY = 0 \<and>
   hunks_appended (text_patch GIT_DELTA_ADDED [hunk_at 1 0 1, hunk_at 2 1 1]
      [diff_line CHR ''+'' ''a\<newline>'', diff_line CHR ''+'' ''b\<newline>'']) 0
      [hunk_at 1 0 1, hunk_at 2 1 1] \<and>
   git_apply__patch stored_inflatebuf failing_delta_apply GIT_BUF_INIT [] [CHR 0x00]
     (text_patch GIT_DELTA_ADDED [hunk_at 1 0 1, hunk_at 2 1 1]
        [diff_line CHR ''+'' ''a\<newline>'', diff_line CHR ''+'' ''b\<newline>'']) =
     Some \<lparr>error = None, contents_out = ''a\<newline>b\<newline>'', filename_out = Some ''new.txt'',
           mode_out = GIT_FILEMODE_BLOB\<rparr>"
proof -
  let ?patch = "text_patch GIT_DELTA_ADDED [hunk_at 1 0 1, hunk_at 2 1 1]
      [diff_line CHR ''+'' ''a\<newline>'', diff_line CHR ''+'' ''b\<newline>'']"
  have hs: "hunks ?patch = [hunk_at 1 0 1, hunk_at 2 1 1]"
    by (simp add: text_patch_def)
  have h: "status (delta ?patch) = GIT_DELTA_ADDED"
    "flags (delta ?patch) AND GIT_DIFF_FLAG_BINARY = 0"
    "hunks_appended ?patch 0 (hunks ?patch)"
    by (simp_all add: example_defs only_additions_def hunk_lines_def hunk_line_num_def
          size_t_of_int_def)
  from apply_patch_added_appends[OF h, of stored_inflatebuf failing_delta_apply "[CHR 0x00]"] h
  show ?thesis
    by (simp add: example_defs hunk_lines_def line_bytes_def)
qed

theorem apply_patch_error_outputs_witness:
  "git_apply__patch stored_inflatebuf failing_delta_apply ''stale''
     ''A\<newline>X\<newline>C\<newline>'' [CHR 0x00]
     (text_patch GIT_DELTA_MODIFIED [hunk_at 1 0 4]
        [diff_line CHR '' '' ''A\<newline>'', diff_line CHR ''-'' ''B\<newline>'',
         diff_line CHR ''+'' ''B2\<newline>'', diff_line CHR '' '' ''C\<newline>'']) =
     Some \<lparr>error = Some (apply_err ''hunk at line 1 did not apply''), contents_out = ''stale'',
           filename_out = None, mode_out = 0\<rparr> \<and>
   git_apply__patch stored_inflatebuf failing_delta_apply GIT_BUF_INIT
     ''A\<newline>B\<newline>C\<newline>'' [CHR 0x00]
     (text_patch GIT_DELTA_MODIFIED [hunk_at 1 0 4]
        [diff_line CHR '' '' ''A\<newline>'', diff_line CHR ''-'' ''B\<newline>'',
         diff_line CHR ''+'' ''B2\<newline>'', diff_line CHR '' '' ''C\<newline>'']) =
     Some \<lparr>error = None, contents_out = ''A\<newline>B2\<newline>C\<newline>'',
           filename_out = Some ''new.txt'', mode_out = GIT_FILEMODE_BLOB\<rparr>"
proof -
  let ?patch = "text_patch GIT_DELTA_MODIFIED [hunk_at 1 0 4]
        [diff_line CHR '' '' ''A\<newline>'', diff_line CHR ''-'' ''B\<newline>'',
         diff_line CHR ''+'' ''B2\<newline>'', diff_line CHR '' '' ''C\<newline>'']"
  let ?fail = "git_apply__patch stored_inflatebuf failing_delta_apply ''stale''
         ''A\<newline>X\<newline>C\<newline>'' [CHR 0x00] ?patch"
  let ?pass = "git_apply__patch stored_inflatebuf failing_delta_apply GIT_BUF_INIT
         ''A\<newline>B\<newline>C\<newline>'' [CHR 0x00] ?patch"
  have msg: "fmt_d 1 = ''1''" by code_simp
  have fails: "map_option error ?fail = Some (Some (apply_err ''hunk at line 1 did not apply''))"
    and kept: "map_option contents_out ?fail = Some ''stale''"
    by (simp_all add: example_defs text_path_defs git_apply__patch_def msg)
  have passes: "map_option error ?pass = Some None"
    and applied: "map_option contents_out ?pass = Some ''A\<newline>B2\<newline>C\<newline>''"
    by (simp_all add: example_defs text_path_defs git_apply__patch_def)
  have patch: "status (delta ?patch) \<noteq> GIT_DELTA_DELETED"
    "path (git_diff_delta.new_file (delta ?patch)) = ''new.txt''"
    "mode (git_diff_delta.new_file (delta ?patch)) = 0"
    by (simp_all add: text_patch_def file_delta_def)
  obtain r1 where r1: "?fail = Some r1"
    using fails by (cases ?fail) simp_all
  obtain r2 where r2: "?pass = Some r2"
    using passes by (cases ?pass) simp_all
  from apply_patch_error_outputs[THEN conjunct1, THEN spec, THEN mp, OF r1] fails kept r1
  have "r1 = \<lparr>error = Some (apply_err ''hunk at line 1 did not apply''), contents_out = ''stale'',
           filename_out = None, mode_out = 0\<rparr>"
    by simp
  moreover
  from apply_patch_error_outputs[THEN conjunct1, THEN spec, THEN mp, OF r2] passes applied r2 patch
  have "r2 = \<lparr>error = None, contents_out = ''A\<newline>B2\<newline>C\<newline>'',
           filename_out = Some ''new.txt'', mode_out = GIT_FILEMODE_BLOB\<rparr>"
    by simp
  ultimately show ?thesis
    using r1 r2 by simp
qed

subsection \<open>The deltas of a diff\<close>

lemma remove_old_paths_done:
  "length diff \<le> i \<Longrightarrow> remove_old_paths env postimage diff i = (None, postimage)"
  by (subst remove_old_paths.simps) simp

lemma remove_old_paths_step:
  "i < length diff \<Longrightarrow>
   remove_old_paths env postimage diff i =
     (case index_remove_code env postimage (path (git_diff_delta.old_file (diff ! i))) of
        Some c \<Rightarrow> (Some (GIT_ERROR_CODE c),
                   postimage(path (git_diff_delta.old_file (diff ! i)) := None))
      | None \<Rightarrow> remove_old_paths env
                  (postimage(path (git_diff_delta.old_file (diff ! i)) := None)) diff (Suc i))"
  by (subst remove_old_paths.simps) (simp add: git_index_remove_def split: option.splits)

lemma old_paths_removed_Suc:
  "i < length diff \<Longrightarrow>
   old_paths_removed index (take (Suc i) diff) =
     (old_paths_removed index (take i diff))(path (git_diff_delta.old_file (diff ! i)) := None)"
  by (simp add: old_paths_removed_def take_Suc_conv_app_nth)

lemma old_paths_removed_restrict:
  "old_paths_removed index ds = index |` (- (\<lambda>d. path (git_diff_delta.old_file d)) ` set ds)"
proof (induction ds arbitrary: index)
  case Nil
  then show ?case by (simp add: old_paths_removed_def)
next
  case (Cons d ds)
  have "old_paths_removed index (d # ds) =
        old_paths_removed (index(path (git_diff_delta.old_file d) := None)) ds"
    by (simp add: old_paths_removed_def)
  also have "\<dots> = index(path (git_diff_delta.old_file d) := None) |`
                     (- (\<lambda>d. path (git_diff_delta.old_file d)) ` set ds)"
    by (rule Cons.IH)
  also have "\<dots> = index |` (- (\<lambda>d. path (git_diff_delta.old_file d)) ` set (d # ds))"
    by (rule ext) (simp add: restrict_map_def)
  finally show ?case .
qed

lemma old_paths_removed_dom:
  "d \<in> set ds \<Longrightarrow> path (git_diff_delta.old_file d) \<notin> dom (old_paths_removed index ds)"
  by (simp add: old_paths_removed_restrict restrict_map_def domIff)

text \<open>
  The first loop of \<open>git_apply_tree\<close>, from the delta at \<open>i\<close> on: it ends with the error of
  the first removal that fails, and without an error when none fails.
\<close>

lemma remove_old_paths_fails:
  assumes "i \<le> j" and "j < length diff"
    and "\<forall>k. i \<le> k \<and> k < j \<longrightarrow> removal_code env index diff k = None"
    and "removal_code env index diff j = Some c"
  shows "remove_old_paths env (old_paths_removed index (take i diff)) diff i =
         (Some (GIT_ERROR_CODE c), old_paths_removed index (take (Suc j) diff))"
  using assms(1,3)
proof (induction "j - i" arbitrary: i)
  case 0
  then have "i = j" by simp
  have "remove_old_paths env (old_paths_removed index (take j diff)) diff j =
        (Some (GIT_ERROR_CODE c),
         (old_paths_removed index (take j diff))(path (git_diff_delta.old_file (diff ! j)) := None))"
    using assms(2,4) by (simp add: remove_old_paths_step removal_code_def)
  then show ?case
    unfolding old_paths_removed_Suc[OF assms(2)] \<open>i = j\<close> .
next
  case (Suc n)
  then have i: "i < j" by simp
  then have len: "i < length diff" using assms(2) by simp
  have code: "index_remove_code env (old_paths_removed index (take i diff))
                (path (git_diff_delta.old_file (diff ! i))) = None"
    using Suc.prems(2) i by (simp add: removal_code_def)
  have n: "n = j - Suc i" using Suc.hyps(2) by simp
  have later: "\<forall>k. Suc i \<le> k \<and> k < j \<longrightarrow> removal_code env index diff k = None"
    using Suc.prems(2) by simp
  have "remove_old_paths env (old_paths_removed index (take i diff)) diff i =
        remove_old_paths env (old_paths_removed index (take (Suc i) diff)) diff (Suc i)"
    using code by (simp add: remove_old_paths_step[OF len] old_paths_removed_Suc[OF len])
  also have "\<dots> = (Some (GIT_ERROR_CODE c), old_paths_removed index (take (Suc j) diff))"
    using i by (intro Suc.hyps(1)[OF n _ later]) simp
  finally show ?case .
qed

lemma remove_old_paths_succeeds:
  assumes "i \<le> length diff"
    and "\<forall>k. i \<le> k \<and> k < length diff \<longrightarrow> removal_code env index diff k = None"
  shows "remove_old_paths env (old_paths_removed index (take i diff)) diff i =
         (None, old_paths_removed index diff)"
  using assms
proof (induction "length diff - i" arbitrary: i)
  case 0
  then show ?case by (simp add: remove_old_paths_done)
next
  case (Suc n)
  then have len: "i < length diff" by simp
  have code: "index_remove_code env (old_paths_removed index (take i diff))
                (path (git_diff_delta.old_file (diff ! i))) = None"
    using Suc.prems(2) len by (simp add: removal_code_def)
  have n: "n = length diff - Suc i" using Suc.hyps(2) by simp
  have later: "\<forall>k. Suc i \<le> k \<and> k < length diff \<longrightarrow> removal_code env index diff k = None"
    using Suc.prems(2) by simp
  have "remove_old_paths env (old_paths_removed index (take i diff)) diff i =
        remove_old_paths env (old_paths_removed index (take (Suc i) diff)) diff (Suc i)"
    using code by (simp add: remove_old_paths_step[OF len] old_paths_removed_Suc[OF len])
  also have "\<dots> = (None, old_paths_removed index diff)"
    using len by (intro Suc.hyps(1)[OF n _ later]) simp
  finally show ?case .
qed

text \<open>
  The batch that the specification describes for \<open>git_apply\<close>, with a loop of removals
  before the loop over \<open>apply_one\<close>, is \<open>git_apply\<close> itself whenever no removal from the
  empty index returns a code: the two differ only where a removal fails.
\<close>

lemma spec_apply_batch_without_failure:
  assumes "\<forall>k<length diff. removal_code env git_index_new diff k = None"
  shows "spec_apply_batch env to_index to_workdir diff location =
         git_apply env to_index to_workdir diff location"
proof -
  have "old_paths_removed git_index_new diff = git_index_new"
    by (simp add: old_paths_removed_restrict git_index_new_def)
  with remove_old_paths_succeeds[of 0 diff env git_index_new] assms
  have "remove_old_paths env git_index_new diff 0 = (None, git_index_new)"
    by (simp add: old_paths_removed_def)
  then show ?thesis
    by (auto simp: spec_apply_batch_def git_apply_def split: prod.splits option.splits)
qed

text \<open>
  Claim C8, amended: in \<open>git_apply_tree\<close>, once the reader and the index are there, the
  first loop goes through the deltas in declared order and removes the old path of each
  from the postimage index. The first removal that returns a code ends the function with
  that code and without an index; the index that this removal is asked of is the tree
  without the old paths of the deltas before it. When every removal returns 0, the loop
  over \<open>apply_one\<close> starts from the tree restricted to the paths that are the old path of
  no delta, and the function returns what that loop returns. \<open>git_apply\<close> has no such
  loop: its loop over \<open>apply_one\<close> starts from the index that \<open>git_index_new\<close> gives. In
  both, the old path of no delta is in the postimage index when the loop over \<open>apply_one\<close>
  starts.
\<close>

theorem old_paths_removed_before_apply:
  "(fst (git_reader_for_tree env preimage) = None \<and> index_read_tree_code env preimage = None \<longrightarrow>
      (\<forall>j c. j < length diff \<and> (\<forall>i<j. removal_code env preimage diff i = None) \<and>
             removal_code env preimage diff j = Some c \<longrightarrow>
         git_apply_tree env preimage diff = Some (Some (GIT_ERROR_CODE c), None)) \<and>
      ((\<forall>i<length diff. removal_code env preimage diff i = None) \<longrightarrow>
         git_apply_tree env preimage diff =
           (case apply_deltas env (snd (git_reader_for_tree env preimage))
                   (old_paths_removed preimage diff) diff 0 of
              None \<Rightarrow> None
            | Some (Some e, postimage) \<Rightarrow> Some (Some e, None)
            | Some (None, postimage) \<Rightarrow> Some (None, Some postimage)))) \<and>
   old_paths_removed preimage diff =
     preimage |` (- (\<lambda>d. path (git_diff_delta.old_file d)) ` set diff) \<and>
   (\<forall>d \<in> set diff. path (git_diff_delta.old_file d) \<notin> dom (old_paths_removed preimage diff)) \<and>
   (fst (if location = GIT_APPLY_LOCATION_WORKDIR
         then git_reader_for_workdir env else git_reader_for_index env) = None \<longrightarrow>
      git_apply env to_index to_workdir diff location =
        (case apply_deltas env
                (snd (if location = GIT_APPLY_LOCATION_WORKDIR
                      then git_reader_for_workdir env else git_reader_for_index env))
                git_index_new diff 0 of
           None \<Rightarrow> None
         | Some (Some e, postimage) \<Rightarrow> Some (Some e)
         | Some (None, postimage) \<Rightarrow>
             Some (map_option GIT_ERROR_CODE
               (if location = GIT_APPLY_LOCATION_INDEX
                then to_index postimage else to_workdir postimage)))) \<and>
   (\<forall>d \<in> set diff. path (git_diff_delta.old_file d) \<notin> dom git_index_new)"
proof (intro conjI impI allI)
  fix j c
  assume ok: "fst (git_reader_for_tree env preimage) = None \<and> index_read_tree_code env preimage = None"
    and fails: "j < length diff \<and> (\<forall>i<j. removal_code env preimage diff i = None) \<and>
             removal_code env preimage diff j = Some c"
  from fails remove_old_paths_fails[of 0 j diff env preimage c]
  have "remove_old_paths env preimage diff 0 =
        (Some (GIT_ERROR_CODE c), old_paths_removed preimage (take (Suc j) diff))"
    by (simp add: old_paths_removed_def)
  with ok show "git_apply_tree env preimage diff = Some (Some (GIT_ERROR_CODE c), None)"
    by (cases "git_reader_for_tree env preimage")
       (simp add: git_apply_tree_def git_index_read_tree_def)
next
  assume ok: "fst (git_reader_for_tree env preimage) = None \<and> index_read_tree_code env preimage = None"
    and none: "\<forall>i<length diff. removal_code env preimage diff i = None"
  from none remove_old_paths_succeeds[of 0 diff env preimage]
  have "remove_old_paths env preimage diff 0 = (None, old_paths_removed preimage diff)"
    by (simp add: old_paths_removed_def)
  with ok show "git_apply_tree env preimage diff =
           (case apply_deltas env (snd (git_reader_for_tree env preimage))
                   (old_paths_removed preimage diff) diff 0 of
              None \<Rightarrow> None
            | Some (Some e, postimage) \<Rightarrow> Some (Some e, None)
            | Some (None, postimage) \<Rightarrow> Some (None, Some postimage))"
    by (cases "git_reader_for_tree env preimage")
       (simp add: git_apply_tree_def git_index_read_tree_def)
next
  show "old_paths_removed preimage diff =
     preimage |` (- (\<lambda>d. path (git_diff_delta.old_file d)) ` set diff)"
    by (rule old_paths_removed_restrict)
next
  show "\<forall>d \<in> set diff. path (git_diff_delta.old_file d) \<notin> dom (old_paths_removed preimage diff)"
    using old_paths_removed_dom by blast
next
  assume "fst (if location = GIT_APPLY_LOCATION_WORKDIR
         then git_reader_for_workdir env else git_reader_for_index env) = None"
  then show "git_apply env to_index to_workdir diff location =
        (case apply_deltas env
                (snd (if location = GIT_APPLY_LOCATION_WORKDIR
                      then git_reader_for_workdir env else git_reader_for_index env))
                git_index_new diff 0 of
           None \<Rightarrow> None
         | Some (Some e, postimage) \<Rightarrow> Some (Some e)
         | Some (None, postimage) \<Rightarrow>
             Some (map_option GIT_ERROR_CODE
               (if location = GIT_APPLY_LOCATION_INDEX
                then to_index postimage else to_workdir postimage)))"
    by (cases "if location = GIT_APPLY_LOCATION_WORKDIR
         then git_reader_for_workdir env else git_reader_for_index env")
       (simp add: git_apply_def)
next
  show "\<forall>d \<in> set diff. path (git_diff_delta.old_file d) \<notin> dom git_index_new"
    by (simp add: git_index_new_def)
qed

text \<open>
  Claim C8 as it is stated fails for \<open>git_apply\<close>, and the difference lies in the return
  code alone. With an index that reports the removal of a path it does not hold as an
  error, the batch of the specification ends in its pre-pass with that error, and
  \<open>git_apply\<close>, which removes nothing, succeeds.
\<close>

theorem batch_pre_pass_counterexample:
  "git_apply strict_index_collaborators commit_ok commit_ok
     [file_delta GIT_DELTA_MODIFIED 0] GIT_APPLY_LOCATION_WORKDIR = Some None \<and>
   spec_apply_batch strict_index_collaborators commit_ok commit_ok
     [file_delta GIT_DELTA_MODIFIED 0] GIT_APPLY_LOCATION_WORKDIR =
     Some (Some (GIT_ERROR_CODE GIT_ENOTFOUND))"
proof -
  have one: "apply_one strict_index_collaborators (\<lambda>p. (None, ''contents'', [CHR 0x00]))
               git_index_new [file_delta GIT_DELTA_MODIFIED 0] 0 =
             Some (None, git_index_new(''new.txt'' \<mapsto> (GIT_FILEMODE_BLOB, ''contents'')))"
    by (simp add: apply_one_def strict_index_collaborators_def example_collaborators_def
          git_apply__patch_def git_index_add_def example_defs git_buf_put_def Let_def)
  have pass: "apply_deltas strict_index_collaborators (\<lambda>p. (None, ''contents'', [CHR 0x00]))
               git_index_new [file_delta GIT_DELTA_MODIFIED 0] 0 =
             Some (None, git_index_new(''new.txt'' \<mapsto> (GIT_FILEMODE_BLOB, ''contents'')))"
    by (simp add: apply_deltas.simps one)
  have reader: "git_reader_for_workdir strict_index_collaborators =
                (None, (\<lambda>p. (None, ''contents'', [CHR 0x00])))"
    by (simp add: strict_index_collaborators_def example_collaborators_def)
  have pre_pass: "remove_old_paths strict_index_collaborators git_index_new
                    [file_delta GIT_DELTA_MODIFIED 0] 0 =
                  (Some (GIT_ERROR_CODE GIT_ENOTFOUND), git_index_new(''old.txt'' := None))"
    by (simp add: remove_old_paths.simps git_index_remove_def strict_index_collaborators_def
          example_collaborators_def git_index_new_def file_delta_def)
  show ?thesis
    by (simp add: git_apply_def spec_apply_batch_def reader pass pre_pass commit_ok_def)
qed

theorem old_paths_removed_before_apply_witness:
  "fst (git_reader_for_tree example_collaborators [''old.txt'' \<mapsto> (33188, ''id'')]) = None \<and>
   index_read_tree_code example_collaborators [''old.txt'' \<mapsto> (33188, ''id'')] = None \<and>
   removal_code example_collaborators [''old.txt'' \<mapsto> (33188, ''id'')]
     [file_delta GIT_DELTA_RENAMED 0] 0 = None \<and>
   map_option fst (git_apply_tree example_collaborators [''old.txt'' \<mapsto> (33188, ''id'')]
     [file_delta GIT_DELTA_RENAMED 0]) = Some None \<and>
   ''old.txt'' \<in> dom [''old.txt'' \<mapsto> (33188 :: nat, ''id'')] \<and>
   ''old.txt'' \<notin> dom (old_paths_removed [''old.txt'' \<mapsto> (33188, ''id'')]
     [file_delta GIT_DELTA_RENAMED 0]) \<and>
   removal_code strict_index_collaborators [''old.txt'' \<mapsto> (33188, ''id'')]
     [file_delta GIT_DELTA_RENAMED 0, file_delta GIT_DELTA_RENAMED 0] 0 = None \<and>
   removal_code strict_index_collaborators [''old.txt'' \<mapsto> (33188, ''id'')]
     [file_delta GIT_DELTA_RENAMED 0, file_delta GIT_DELTA_RENAMED 0] 1 = Some GIT_ENOTFOUND \<and>
   git_apply_tree strict_index_collaborators [''old.txt'' \<mapsto> (33188, ''id'')]
     [file_delta GIT_DELTA_RENAMED 0, file_delta GIT_DELTA_RENAMED 0] =
     Some (Some (GIT_ERROR_CODE GIT_ENOTFOUND), None) \<and>
   fst (git_reader_for_workdir example_collaborators) = None \<and>
   ''old.txt'' \<notin> dom git_index_new"
proof -
  let ?env = example_collaborators and ?strict = strict_index_collaborators
  let ?tree = "[''old.txt'' \<mapsto> (33188 :: nat, ''id'')]"
  let ?diff = "[file_delta GIT_DELTA_RENAMED 0]"
  let ?twice = "[file_delta GIT_DELTA_RENAMED 0, file_delta GIT_DELTA_RENAMED 0]"
  have ok: "fst (git_reader_for_tree ?env ?tree) = None \<and> index_read_tree_code ?env ?tree = None"
    and ok_strict:
      "fst (git_reader_for_tree ?strict ?tree) = None \<and> index_read_tree_code ?strict ?tree = None"
    by (simp_all add: example_collaborators_def strict_index_collaborators_def)
  have reader: "fst (if GIT_APPLY_LOCATION_WORKDIR = GIT_APPLY_LOCATION_WORKDIR
         then git_reader_for_workdir ?env else git_reader_for_index ?env) = None"
    by (simp add: example_collaborators_def)
  have old: "path (git_diff_delta.old_file (file_delta GIT_DELTA_RENAMED 0)) = ''old.txt''"
    by (simp add: file_delta_def)
  have code: "removal_code ?env ?tree ?diff 0 = None"
    by (simp add: removal_code_def example_collaborators_def)
  then have none: "\<forall>i<length ?diff. removal_code ?env ?tree ?diff i = None"
    by simp
  have first: "removal_code ?strict ?tree ?twice 0 = None"
    by (simp add: removal_code_def old_paths_removed_def strict_index_collaborators_def
          example_collaborators_def old)
  have second: "removal_code ?strict ?tree ?twice 1 = Some GIT_ENOTFOUND"
    by (simp add: removal_code_def old_paths_removed_def strict_index_collaborators_def
          example_collaborators_def old)
  from first second
  have fails: "1 < length ?twice \<and> (\<forall>i<1. removal_code ?strict ?tree ?twice i = None) \<and>
               removal_code ?strict ?tree ?twice 1 = Some GIT_ENOTFOUND"
    by simp
  have pass: "map_option fst
      (apply_deltas ?env (snd (git_reader_for_tree ?env ?tree)) (old_paths_removed ?tree ?diff)
         ?diff 0) = Some None"
    by (simp add: apply_deltas.simps apply_one_def example_collaborators_def
          git_apply__patch_def git_index_add_def example_defs git_buf_put_def Let_def)
  note both = old_paths_removed_before_apply[where env = ?env and preimage = ?tree
      and diff = ?diff and location = GIT_APPLY_LOCATION_WORKDIR]
  note strict = old_paths_removed_before_apply[where env = ?strict and preimage = ?tree
      and diff = ?twice and location = GIT_APPLY_LOCATION_WORKDIR]
  from both[THEN conjunct1, THEN mp, OF ok, THEN conjunct2, THEN mp, OF none] pass
  have applied: "map_option fst (git_apply_tree ?env ?tree ?diff) = Some None"
    by (auto split: option.splits prod.splits)
  from strict[THEN conjunct1, THEN mp, OF ok_strict, THEN conjunct1, THEN spec, THEN spec,
         THEN mp, OF fails]
  have stopped: "git_apply_tree ?strict ?tree ?twice =
                 Some (Some (GIT_ERROR_CODE GIT_ENOTFOUND), None)" .
  from both[THEN conjunct2, THEN conjunct2, THEN conjunct1]
       both[THEN conjunct2, THEN conjunct2, THEN conjunct2, THEN conjunct2]
       ok reader old code first second applied stopped
  show ?thesis by simp
qed

end
